theory Spec2Isabelle
  imports Main
begin

section \<open>Python values and exceptions\<close>

text \<open>
  The scripts of the repository talk to a GraphQL endpoint and inspect the decoded JSON
  bodies with Python's dictionary and sequence operations. A decoded body is a value of
  type \<open>json\<close>; an object is the association list of the parsed dictionary (keys
  distinct). A Python \<open>str\<close> is a \<open>string\<close>, one \<open>char\<close> per code point (code points
  below 256). JSON numbers are integers here. \<open>None\<close> is \<open>JNull\<close>.
\<close>

datatype json =
    JNull
  | JBool bool
  | JInt int
  | JStr string
  | JArr "json list"
  | JObj "(string \<times> json) list"

text \<open>
  The exceptions the scripts raise or meet. \<open>ValueError\<close> and \<open>RuntimeError\<close> carry
  their message; the others are raised by the interpreter on a value of the wrong shape.
\<close>

datatype py_error =
    ValueError string
  | RuntimeError string
  | AttributeError
  | TypeError
  | KeyError
  | IndexError
  | RequestException string
  | JSONDecodeError

text \<open>Truth value of \<open>not x\<close> / \<open>if x\<close>.\<close>

fun truthy :: "json \<Rightarrow> bool" where
  "truthy JNull = False"
| "truthy (JBool b) = b"
| "truthy (JInt i) = (i \<noteq> 0)"
| "truthy (JStr s) = (s \<noteq> [])"
| "truthy (JArr xs) = (xs \<noteq> [])"
| "truthy (JObj kvs) = (kvs \<noteq> [])"

text \<open>\<open>d.get(k, default)\<close>: only a dictionary has the method.\<close>

fun py_get :: "json \<Rightarrow> string \<Rightarrow> json \<Rightarrow> py_error + json" where
  "py_get (JObj kvs) k dflt = Inr (case map_of kvs k of None \<Rightarrow> dflt | Some v \<Rightarrow> v)"
| "py_get _ k dflt = Inl AttributeError"

text \<open>\<open>d[k]\<close> with a string key.\<close>

fun py_subscript :: "json \<Rightarrow> string \<Rightarrow> py_error + json" where
  "py_subscript (JObj kvs) k = (case map_of kvs k of None \<Rightarrow> Inl KeyError | Some v \<Rightarrow> Inr v)"
| "py_subscript _ k = Inl TypeError"

text \<open>\<open>x[0]\<close>.\<close>

fun py_index0 :: "json \<Rightarrow> py_error + json" where
  "py_index0 (JArr []) = Inl IndexError"
| "py_index0 (JArr (x # xs)) = Inr x"
| "py_index0 (JStr []) = Inl IndexError"
| "py_index0 (JStr (c # cs)) = Inr (JStr [c])"
| "py_index0 (JObj kvs) = Inl KeyError"
| "py_index0 _ = Inl TypeError"

text \<open>Substring test of \<open>k in s\<close> on strings.\<close>

fun starts_with :: "string \<Rightarrow> string \<Rightarrow> bool" where
  "starts_with s [] = True"
| "starts_with [] (c # cs) = False"
| "starts_with (d # ds) (c # cs) = (d = c \<and> starts_with ds cs)"

fun str_contains :: "string \<Rightarrow> string \<Rightarrow> bool" where
  "str_contains [] k = (k = [])"
| "str_contains (d # ds) k = (starts_with (d # ds) k \<or> str_contains ds k)"

text \<open>\<open>k in x\<close> with a string \<open>k\<close>.\<close>

fun py_in :: "string \<Rightarrow> json \<Rightarrow> py_error + bool" where
  "py_in k (JObj kvs) = Inr (map_of kvs k \<noteq> None)"
| "py_in k (JArr xs) = Inr (List.member xs (JStr k))"
| "py_in k (JStr s) = Inr (str_contains s k)"
| "py_in k _ = Inl TypeError"

text \<open>\<open>sep.join(xs)\<close> on strings.\<close>

fun join_str :: "string \<Rightarrow> string list \<Rightarrow> string" where
  "join_str sep [] = []"
| "join_str sep [x] = x"
| "join_str sep (x # y # ys) = x @ sep @ join_str sep (y # ys)"

section \<open>Effects\<close>

text \<open>
  What a script does to the outside world, in order: the GraphQL request it posts (with
  the bearer token of the \<open>Authorization\<close> header, if any), the download it requests, the
  lines it prints, the time it sleeps, the file it writes. Lines built from a value are
  kept structured instead of formatted.
\<close>

datatype request =
    Login string
  | QueryReport string
  | ExecuteReport string
  | CreateReport json

datatype event =
    Prompt string
  | Post request "json option"
  | HttpGet json
  | Print string
  | PrintError string py_error
  | PrintStatusCheck nat json
  | PrintNextCheck nat
  | PrintValue string json
  | PrintFileSize nat
  | Sleep nat
  | WriteFile string "nat list"
  | WriteLines string "json list"

text \<open>What the network gives back to one \<open>requests.post\<close> of \<open>_execute_query\<close>.\<close>

datatype http_result =
    RequestFailed string
  | NotJson
  | Body json

section \<open>The GraphQL client\<close>

record client =
  api_key :: string
  access_token :: json

definition new_client :: "string \<Rightarrow> client" where
  "new_client k = \<lparr>api_key = k, access_token = JNull\<rparr>"

text \<open>
  The messages of a truthy \<open>errors\<close> value:
  \<open>[error.get("message", "Unknown error") for error in data["errors"]]\<close>, then joined.
\<close>

fun error_messages :: "json list \<Rightarrow> py_error + json list" where
  "error_messages [] = Inr []"
| "error_messages (e # es) =
     (case py_get e ''message'' (JStr ''Unknown error'') of
        Inl x \<Rightarrow> Inl x
      | Inr m \<Rightarrow> (case error_messages es of Inl x \<Rightarrow> Inl x | Inr ms \<Rightarrow> Inr (m # ms)))"

fun all_strs :: "json list \<Rightarrow> string list option" where
  "all_strs [] = Some []"
| "all_strs (JStr s # ms) = (case all_strs ms of None \<Rightarrow> None | Some ss \<Rightarrow> Some (s # ss))"
| "all_strs (_ # ms) = None"

fun graphql_failure :: "json \<Rightarrow> py_error" where
  "graphql_failure (JArr es) =
     (case error_messages es of
        Inl x \<Rightarrow> x
      | Inr ms \<Rightarrow>
          (case all_strs ms of
             None \<Rightarrow> TypeError
           | Some ss \<Rightarrow> RuntimeError (''GraphQL query failed: '' @ join_str '', '' ss)))"
| "graphql_failure (JObj kvs) = AttributeError"
| "graphql_failure (JStr s) = AttributeError"
| "graphql_failure _ = TypeError"

text \<open>
  \<open>_execute_query\<close>: one POST, unless an authenticated call is made without a token.
\<close>

definition execute_query ::
  "client \<Rightarrow> request \<Rightarrow> bool \<Rightarrow> http_result \<Rightarrow> event list \<times> (py_error + json)" where
  "execute_query c q authenticated http =
     (if authenticated \<and> \<not> truthy (access_token c)
      then ([], Inl (ValueError ''Not authenticated. Call authenticate() first.''))
      else
        (let evs = [Post q (if authenticated then Some (access_token c) else None)] in
         case http of
           RequestFailed e \<Rightarrow> (evs, Inl (RuntimeError (''Network request failed: '' @ e)))
         | NotJson \<Rightarrow> (evs, Inl (RuntimeError ''Failed to parse API response as JSON''))
         | Body data \<Rightarrow>
             (case py_in ''errors'' data of
                Inl x \<Rightarrow> (evs, Inl x)
              | Inr False \<Rightarrow> (evs, Inr data)
              | Inr True \<Rightarrow>
                  (case py_subscript data ''errors'' of
                     Inl x \<Rightarrow> (evs, Inl x)
                   | Inr errs \<Rightarrow>
                       if truthy errs then (evs, Inl (graphql_failure errs))
                       else (evs, Inr data)))))"

text \<open>
  \<open>authenticate\<close>: the login mutation, then the token is read from
  \<open>response["data"]["loginAPI"]["accessToken"]\<close> and stored before it is checked.
\<close>

definition authenticate :: "client \<Rightarrow> http_result \<Rightarrow> event list \<times> (py_error + client)" where
  "authenticate c http =
     (case execute_query c (Login (api_key c)) False http of
        (evs, Inl x) \<Rightarrow> (evs, Inl x)
      | (evs, Inr response) \<Rightarrow>
          (evs,
           if \<not> truthy response
           then Inl (ValueError ''Failed to authenticate: Invalid API response'')
           else
             (case py_in ''data'' response of
                Inl x \<Rightarrow> Inl x
              | Inr False \<Rightarrow> Inl (ValueError ''Failed to authenticate: Invalid API response'')
              | Inr True \<Rightarrow>
                  (case py_subscript response ''data'' of
                     Inl x \<Rightarrow> Inl x
                   | Inr d \<Rightarrow>
                       (case py_in ''loginAPI'' d of
                          Inl x \<Rightarrow> Inl x
                        | Inr False \<Rightarrow>
                            Inl (ValueError ''Failed to authenticate: Invalid API response'')
                        | Inr True \<Rightarrow>
                            (case py_subscript d ''loginAPI'' of
                               Inl x \<Rightarrow> Inl x
                             | Inr l \<Rightarrow>
                                 (case py_subscript l ''accessToken'' of
                                    Inl x \<Rightarrow> Inl x
                                  | Inr tok \<Rightarrow>
                                      if \<not> truthy tok \<or> tok = JStr ''null''
                                      then Inl (ValueError ''Failed to obtain access token'')
                                      else Inr (c\<lparr>access_token := tok\<rparr>))))))))"

text \<open>
  \<open>get_report_info\<close>: an authenticated query; the node is \<open>response["data"]["node"]\<close>.
\<close>

definition get_report_info ::
  "client \<Rightarrow> string \<Rightarrow> http_result \<Rightarrow> event list \<times> (py_error + json)" where
  "get_report_info c report_id http =
     (case execute_query c (QueryReport report_id) True http of
        (evs, Inl x) \<Rightarrow> (evs, Inl x)
      | (evs, Inr response) \<Rightarrow>
          (evs,
           if \<not> truthy response
           then Inl (ValueError ''Invalid report information response'')
           else
             (case py_in ''data'' response of
                Inl x \<Rightarrow> Inl x
              | Inr False \<Rightarrow> Inl (ValueError ''Invalid report information response'')
              | Inr True \<Rightarrow>
                  (case py_subscript response ''data'' of
                     Inl x \<Rightarrow> Inl x
                   | Inr d \<Rightarrow>
                       (case py_in ''node'' d of
                          Inl x \<Rightarrow> Inl x
                        | Inr False \<Rightarrow> Inl (ValueError ''Invalid report information response'')
                        | Inr True \<Rightarrow> py_subscript d ''node'')))))"

text \<open>\<open>execute_report\<close>: the trigger mutation; the returned data is dropped.\<close>

definition execute_report ::
  "client \<Rightarrow> string \<Rightarrow> http_result \<Rightarrow> event list \<times> (py_error + unit)" where
  "execute_report c report_id http =
     (case execute_query c (ExecuteReport report_id) True http of
        (evs, Inl x) \<Rightarrow> (evs, Inl x)
      | (evs, Inr response) \<Rightarrow> (evs, Inr ()))"

text \<open>
  \<open>download_report\<close>: one GET of the URL; the content is written to the file and the
  size of the file is returned. Failures of the local file system are not modelled.
\<close>

datatype download_result =
    DownloadFailed string
  | Content "nat list"

definition download_report ::
  "json \<Rightarrow> string \<Rightarrow> download_result \<Rightarrow> event list \<times> (py_error + nat)" where
  "download_report url filename dl =
     (case dl of
        DownloadFailed e \<Rightarrow> ([HttpGet url], Inl (RuntimeError (''Download failed: '' @ e)))
      | Content bytes \<Rightarrow> ([HttpGet url, WriteFile filename bytes], Inr (length bytes)))"

section \<open>File names\<close>

text \<open>
  \<open>sanitize_filename\<close>: \<open>filename.replace(" ", "_")\<close>, then
  \<open>re.sub(r'[^a-zA-Z0-9._-]', '_', filename)\<close>. The character class is the ASCII
  letters and digits, the dot, the underscore and the hyphen.
\<close>

definition in_class :: "char \<Rightarrow> bool" where
  "in_class c =
     (let n = (of_char c :: nat) in
      (97 \<le> n \<and> n \<le> 122) \<or> (65 \<le> n \<and> n \<le> 90) \<or> (48 \<le> n \<and> n \<le> 57)
      \<or> c = CHR ''.'' \<or> c = CHR ''_'' \<or> c = CHR ''-'')"

definition replace_space :: "string \<Rightarrow> string" where
  "replace_space s = map (\<lambda>c. if c = CHR '' '' then CHR ''_'' else c) s"

definition re_sub_class :: "string \<Rightarrow> string" where
  "re_sub_class s = map (\<lambda>c. if in_class c then c else CHR ''_'') s"

definition sanitize_filename :: "string \<Rightarrow> string" where
  "sanitize_filename filename = re_sub_class (replace_space filename)"

section \<open>The execute-and-download script\<close>

text \<open>
  How a run of the script ends: it falls off the end of \<open>main\<close>, it calls
  \<open>sys.exit(n)\<close>, or an exception no handler catches ends it with a traceback (exit
  status 1).
\<close>

datatype outcome =
    Finished
  | Exit nat
  | Uncaught py_error

fun exit_status :: "outcome \<Rightarrow> nat" where
  "exit_status Finished = 0"
| "exit_status (Exit n) = n"
| "exit_status (Uncaught x) = 1"

text \<open>
  The handlers \<open>except (ValueError, RuntimeError)\<close>, \<open>except RuntimeError\<close> and
  \<open>except (ValueError, IndexError)\<close>.
\<close>

fun is_value_or_runtime :: "py_error \<Rightarrow> bool" where
  "is_value_or_runtime (ValueError m) = True"
| "is_value_or_runtime (RuntimeError m) = True"
| "is_value_or_runtime _ = False"

fun is_runtime :: "py_error \<Rightarrow> bool" where
  "is_runtime (RuntimeError m) = True"
| "is_runtime _ = False"

fun is_value_or_index :: "py_error \<Rightarrow> bool" where
  "is_value_or_index (ValueError m) = True"
| "is_value_or_index IndexError = True"
| "is_value_or_index _ = False"

definition bar :: string where
  "bar = replicate 46 (CHR ''='')"

definition print_header :: "string \<Rightarrow> event list" where
  "print_header text = [Print bar, Print text, Print bar]"

definition max_retries :: nat where
  "max_retries = 5"

text \<open>
  The body of the \<open>try\<close> block of one status check: the report is fetched and
  \<open>report_info.get("result", {}).get("status")\<close> must be truthy.
\<close>

definition check_status ::
  "client \<Rightarrow> string \<Rightarrow> http_result \<Rightarrow> event list \<times> (py_error + json \<times> json)" where
  "check_status c report_id http =
     (case get_report_info c report_id http of
        (evs, Inl x) \<Rightarrow> (evs, Inl x)
      | (evs, Inr report_info) \<Rightarrow>
          (evs,
           case py_get report_info ''result'' (JObj []) of
             Inl x \<Rightarrow> Inl x
           | Inr r \<Rightarrow>
               (case py_get r ''status'' JNull of
                  Inl x \<Rightarrow> Inl x
                | Inr status \<Rightarrow>
                    if \<not> truthy status
                    then Inl (ValueError ''Failed to retrieve report status'')
                    else Inr (report_info, status))))"

text \<open>
  The poll loop \<open>while True\<close> of \<open>main\<close>. \<open>polls 0\<close> is the answer of the network to the
  next status check, \<open>polls 1\<close> to the one after it, and so on. The loop either ends the
  process (\<open>Inl\<close>) or leaves with the report information of the COMPLETED check
  (\<open>Inr\<close>). \<open>int(sleep_time * 1.5)\<close> is \<open>sleep_time * 3 div 2\<close> on the natural numbers
  (the floating-point product is exact far beyond the values the loop can reach).
\<close>

function poll_loop ::
  "client \<Rightarrow> string \<Rightarrow> (nat \<Rightarrow> http_result) \<Rightarrow> nat \<Rightarrow> nat \<Rightarrow> event list \<times> (outcome + json)" where
  "poll_loop c report_id polls counter sleep_time =
     (case check_status c report_id (polls 0) of
        (evs, Inl x) \<Rightarrow>
          if is_value_or_runtime x
          then (evs @ [PrintError ''ERROR: Failed to check report status - '' x], Inl (Exit 1))
          else (evs, Inl (Uncaught x))
      | (evs, Inr (report_info, status)) \<Rightarrow>
          if status = JStr ''COMPLETED''
          then (evs @ [PrintStatusCheck counter status, Print '''']
                  @ print_header ''REPORT COMPLETED SUCCESSFULLY'',
                Inr report_info)
          else if status = JStr ''QUEUED''
          then (evs @ [PrintStatusCheck counter status, Print '''',
                  Print ''WARNING: Report is QUEUED'',
                  Print ''This may indicate the report is waiting for resources.'',
                  Print ''Please check status in the CloudHealth platform.''],
                Inl (Exit 1))
          else if status = JStr ''FAILED''
          then (evs @ [PrintStatusCheck counter status, Print '''']
                  @ print_header ''ERROR: REPORT EXECUTION FAILED''
                  @ [Print ''Please check the report configuration in the CloudHealth platform.''],
                Inl (Exit 1))
          else if counter \<ge> max_retries
          then (evs @ [PrintStatusCheck counter status, Print '''']
                  @ print_header ''TIMEOUT: Report still running after 5 checks''
                  @ [Print ''The report is taking longer than expected.'',
                     Print ''Please check status in the CloudHealth platform.''],
                Inl (Exit 1))
          else
            (case poll_loop c report_id (\<lambda>k. polls (Suc k)) (counter + 1)
                    (if counter + 1 > 1 then sleep_time * 3 div 2 else sleep_time) of
               (evs2, r) \<Rightarrow>
                 (evs @ [PrintStatusCheck counter status,
                    PrintNextCheck (if counter + 1 > 1 then sleep_time * 3 div 2 else sleep_time),
                    Print '''',
                    Sleep (if counter + 1 > 1 then sleep_time * 3 div 2 else sleep_time)] @ evs2,
                  r)))"
  by pat_completeness auto
termination
  by (relation "measure (\<lambda>(c, report_id, polls, counter, sleep_time). max_retries - counter)")
     (auto simp: max_retries_def)

text \<open>
  The steps of \<open>main\<close> are chained: a step either ends the process with an outcome
  (\<open>Inl\<close>) or hands a value to the next step (\<open>Inr\<close>); the events are accumulated in
  order.
\<close>

definition seq ::
  "event list \<times> (outcome + 'a) \<Rightarrow> ('a \<Rightarrow> event list \<times> (outcome + 'b))
     \<Rightarrow> event list \<times> (outcome + 'b)" where
  "seq m f =
     (case m of
        (evs, Inl out) \<Rightarrow> (evs, Inl out)
      | (evs, Inr a) \<Rightarrow> (case f a of (evs2, r) \<Rightarrow> (evs @ evs2, r)))"

text \<open>
  \<open>input(text).strip()\<close> inside \<open>try\<close>: the argument is the stripped line, or \<open>None\<close>
  when the operator interrupts (KeyboardInterrupt, EOFError).
\<close>

definition prompt ::
  "string \<Rightarrow> string \<Rightarrow> string option \<Rightarrow> event list \<times> (outcome + string)" where
  "prompt text empty_msg inp =
     (case inp of
        None \<Rightarrow>
          ([Prompt text, Print ([CHR 0x0A, CHR 0x0A] @ ''Operation cancelled by user'')],
           Inl (Exit 1))
      | Some s \<Rightarrow>
          if s = [] then ([Prompt text, Print empty_msg], Inl (Exit 1))
          else ([Prompt text], Inr s))"

definition auth_step :: "string \<Rightarrow> http_result \<Rightarrow> event list \<times> (outcome + client)" where
  "auth_step k http =
     (case authenticate (new_client k) http of
        (evs, Inl x) \<Rightarrow>
          if is_value_or_runtime x
          then ([Print '''', Print ''Authenticating with CloudHealth API...''] @ evs
                  @ [PrintError ''ERROR: Authentication failed - '' x],
                Inl (Exit 1))
          else ([Print '''', Print ''Authenticating with CloudHealth API...''] @ evs,
                Inl (Uncaught x))
      | (evs, Inr c) \<Rightarrow>
          ([Print '''', Print ''Authenticating with CloudHealth API...''] @ evs
             @ [Print ''Authentication successful'', Print ''''],
           Inr c))"

text \<open>The first \<open>get_report_info\<close>: \<open>report_info.get("name")\<close> must be truthy.\<close>

definition report_name_of :: "event list \<times> (py_error + json) \<Rightarrow> event list \<times> (py_error + json)" where
  "report_name_of m =
     (case m of
        (evs, Inl x) \<Rightarrow> (evs, Inl x)
      | (evs, Inr report_info) \<Rightarrow>
          (evs,
           case py_get report_info ''name'' JNull of
             Inl x \<Rightarrow> Inl x
           | Inr report_name \<Rightarrow>
               if \<not> truthy report_name then Inl (ValueError ''Failed to retrieve report name'')
               else Inr report_name))"

definition info_step ::
  "client \<Rightarrow> string \<Rightarrow> http_result \<Rightarrow> event list \<times> (outcome + json)" where
  "info_step c report_id http =
     (case report_name_of (get_report_info c report_id http) of
        (evs, Inl x) \<Rightarrow>
          if is_value_or_runtime x
          then ([Print ''''] @ evs
                  @ [PrintError ''ERROR: Failed to get report information - '' x],
                Inl (Exit 1))
          else ([Print ''''] @ evs, Inl (Uncaught x))
      | (evs, Inr report_name) \<Rightarrow>
          ([Print ''''] @ evs
             @ [Print bar, PrintValue ''EXECUTING REPORT: '' report_name, Print bar, Print ''''],
           Inr report_name))"

definition exec_step ::
  "client \<Rightarrow> string \<Rightarrow> http_result \<Rightarrow> event list \<times> (outcome + unit)" where
  "exec_step c report_id http =
     (case execute_report c report_id http of
        (evs, Inl x) \<Rightarrow>
          if is_runtime x
          then (evs @ [PrintError ''ERROR: Failed to execute report - '' x], Inl (Exit 1))
          else (evs, Inl (Uncaught x))
      | (evs, Inr u) \<Rightarrow>
          (evs @ [Print ''Report execution triggered successfully'',
             Print ''Waiting 15 seconds before first status check...'',
             Print ''''],
           Inr ()))"

text \<open>\<open>time.sleep(15)\<close>, then the loop from \<open>counter = 1\<close>, \<open>sleep_time = 10\<close>.\<close>

definition poll_step ::
  "client \<Rightarrow> string \<Rightarrow> (nat \<Rightarrow> http_result) \<Rightarrow> event list \<times> (outcome + json)" where
  "poll_step c report_id polls =
     (case poll_loop c report_id polls 1 10 of (evs, r) \<Rightarrow> (Sleep 15 # evs, r))"

text \<open>
  The download URL:
  \<open>report_info.get("result", {}).get("contents", [{}])[0].get("preSignedUrl")\<close>, which
  must be truthy and not the string \<open>"null"\<close>.
\<close>

definition download_url :: "json \<Rightarrow> py_error + json" where
  "download_url report_info =
     (case py_get report_info ''result'' (JObj []) of
        Inl x \<Rightarrow> Inl x
      | Inr r \<Rightarrow>
          (case py_get r ''contents'' (JArr [JObj []]) of
             Inl x \<Rightarrow> Inl x
           | Inr cs \<Rightarrow>
               (case py_index0 cs of
                  Inl x \<Rightarrow> Inl x
                | Inr d \<Rightarrow>
                    (case py_get d ''preSignedUrl'' JNull of
                       Inl x \<Rightarrow> Inl x
                     | Inr url \<Rightarrow>
                         if \<not> truthy url \<or> url = JStr ''null''
                         then Inl (ValueError ''Failed to retrieve download URL'')
                         else Inr url))))"

text \<open>
  The rest of \<open>main\<close> after the loop. \<open>sanitize_filename\<close> calls \<open>replace\<close> on the report
  name, which only a \<open>str\<close> has. The size is printed through \<open>format_size\<close>, a
  floating-point formatting that is left out: the event carries the number of bytes.
\<close>

definition download_step ::
  "json \<Rightarrow> json \<Rightarrow> download_result \<Rightarrow> event list \<times> (outcome + unit)" where
  "download_step report_info report_name dl =
     (case download_url report_info of
        Inl x \<Rightarrow>
          if is_value_or_index x
          then ([Print '''', Print ''Preparing to download report...'', PrintError ''ERROR: '' x],
                Inl (Exit 1))
          else ([Print '''', Print ''Preparing to download report...''], Inl (Uncaught x))
      | Inr url \<Rightarrow>
          (case report_name of
             JStr name \<Rightarrow>
               (let output_file = sanitize_filename name @ ''.csv'';
                    evs = [Print '''', Print ''Preparing to download report...'',
                           PrintValue ''Report Name: '' report_name,
                           PrintValue ''Download URL: '' url,
                           PrintValue ''Saving as: '' (JStr output_file),
                           Print '''']
                in case download_report url output_file dl of
                     (evs2, Inl x) \<Rightarrow>
                       if is_runtime x
                       then (evs @ evs2 @ [Print '''']
                               @ print_header ''ERROR: DOWNLOAD FAILED''
                               @ [Print ''Please try downloading manually from the CloudHealth platform.''],
                             Inl (Exit 1))
                       else (evs @ evs2, Inl (Uncaught x))
                   | (evs2, Inr file_size) \<Rightarrow>
                       (evs @ evs2 @ print_header ''DOWNLOAD COMPLETE''
                          @ [PrintValue ''File saved: '' (JStr output_file), Print '''',
                             PrintFileSize file_size, Print ''''],
                        Inr ()))
           | _ \<Rightarrow> ([Print '''', Print ''Preparing to download report...''],
                   Inl (Uncaught AttributeError))))"

text \<open>
  What the outside world gives a run of the script (started without command-line
  arguments): the two lines the operator types and the answers of the network.
\<close>

record env =
  api_key_input :: "string option"
  login_http :: http_result
  report_id_input :: "string option"
  info_http :: http_result
  execute_http :: http_result
  poll_http :: "nat \<Rightarrow> http_result"
  download_http :: download_result

definition main_steps :: "env \<Rightarrow> event list \<times> (outcome + unit)" where
  "main_steps e =
     seq (prompt ''Enter your CloudHealth API key: '' ''ERROR: API key cannot be empty''
            (api_key_input e)) (\<lambda>k.
     seq (auth_step k (login_http e)) (\<lambda>c.
     seq (prompt ''Enter FlexReport ID: '' ''ERROR: FlexReport ID cannot be empty''
            (report_id_input e)) (\<lambda>report_id.
     seq (info_step c report_id (info_http e)) (\<lambda>report_name.
     seq (exec_step c report_id (execute_http e)) (\<lambda>u.
     seq (poll_step c report_id (poll_http e)) (\<lambda>report_info.
       download_step report_info report_name (download_http e)))))))"

definition main :: "env \<Rightarrow> event list \<times> outcome" where
  "main e =
     (case main_steps e of
        (evs, Inl out) \<Rightarrow> (print_header ''CloudHealth FlexReport Execution Tool'' @ [Print ''''] @ evs, out)
      | (evs, Inr u) \<Rightarrow> (print_header ''CloudHealth FlexReport Execution Tool'' @ [Print ''''] @ evs, Finished))"

declare poll_loop.simps [simp del]

section \<open>Observations on a run\<close>

text \<open>
  A status check is a report query posted by the poll loop; the delays are the arguments
  of \<open>time.sleep\<close>, in order; a download is a GET.
\<close>

fun is_status_request :: "event \<Rightarrow> bool" where
  "is_status_request (Post (QueryReport r) t) = True"
| "is_status_request _ = False"

definition status_checks :: "event list \<Rightarrow> nat" where
  "status_checks evs = length (filter is_status_request evs)"

fun sleeps :: "event list \<Rightarrow> nat list" where
  "sleeps [] = []"
| "sleeps (Sleep n # evs) = n # sleeps evs"
| "sleeps (ev # evs) = sleeps evs"

fun downloads :: "event list \<Rightarrow> json list" where
  "downloads [] = []"
| "downloads (HttpGet url # evs) = url # downloads evs"
| "downloads (ev # evs) = downloads evs"

fun logins :: "event list \<Rightarrow> string list" where
  "logins [] = []"
| "logins (Post (Login k) t # evs) = k # logins evs"
| "logins (ev # evs) = logins evs"

text \<open>
  A poll response on which the loop goes on (counter permitting): the check succeeds,
  so the status is truthy, and the status is none of the three the loop stops on.
\<close>

definition keeps_polling :: "client \<Rightarrow> string \<Rightarrow> http_result \<Rightarrow> bool" where
  "keeps_polling c report_id http =
     (case check_status c report_id http of
        (evs, Inl x) \<Rightarrow> False
      | (evs, Inr (report_info, status)) \<Rightarrow>
          status \<noteq> JStr ''COMPLETED'' \<and> status \<noteq> JStr ''QUEUED'' \<and> status \<noteq> JStr ''FAILED'')"

text \<open>The answer of the endpoint for a report called \<open>name\<close> in the given status.\<close>

definition report_body :: "string \<Rightarrow> json \<Rightarrow> json list \<Rightarrow> http_result" where
  "report_body name status contents =
     Body (JObj [(''data'', JObj [(''node'', JObj
        [(''id'', JStr ''r''), (''name'', JStr name),
         (''result'', JObj [(''status'', status), (''contents'', JArr contents)])])])])"

definition the_timeout_lines :: "event list" where
  "the_timeout_lines =
     [Print ''''] @ print_header ''TIMEOUT: Report still running after 5 checks''
     @ [Print ''The report is taking longer than expected.'',
        Print ''Please check status in the CloudHealth platform.'']"

definition reports_status :: "client \<Rightarrow> string \<Rightarrow> http_result \<Rightarrow> json \<Rightarrow> bool" where
  "reports_status c report_id http st =
     (case check_status c report_id http of
        (evs, Inl x) \<Rightarrow> False
      | (evs, Inr (report_info, status)) \<Rightarrow> status = st)"

definition the_queued_lines :: "event list" where
  "the_queued_lines =
     [Print '''', Print ''WARNING: Report is QUEUED'',
      Print ''This may indicate the report is waiting for resources.'',
      Print ''Please check status in the CloudHealth platform.'']"

definition the_failed_lines :: "event list" where
  "the_failed_lines =
     [Print ''''] @ print_header ''ERROR: REPORT EXECUTION FAILED''
     @ [Print ''Please check the report configuration in the CloudHealth platform.'']"

definition the_completed_lines :: "event list" where
  "the_completed_lines = [Print ''''] @ print_header ''REPORT COMPLETED SUCCESSFULLY''"

definition report_node :: "string \<Rightarrow> json \<Rightarrow> json list \<Rightarrow> json" where
  "report_node name status contents =
     JObj [(''id'', JStr ''r''), (''name'', JStr name),
           (''result'', JObj [(''status'', status), (''contents'', JArr contents)])]"

text \<open>A client after a successful login.\<close>

definition client0 :: client where
  "client0 = \<lparr>api_key = ''key'', access_token = JStr ''token''\<rparr>"

text \<open>
  The first content descriptor decides the download: its \<open>preSignedUrl\<close>, which is
  usable when it is truthy and not the string \<open>"null"\<close>.
\<close>

fun first_is_object :: "json list \<Rightarrow> bool" where
  "first_is_object [] = True"
| "first_is_object (JObj d # rest) = True"
| "first_is_object (x # rest) = False"

fun first_url :: "json list \<Rightarrow> json" where
  "first_url (JObj d # rest) = (case map_of d ''preSignedUrl'' of None \<Rightarrow> JNull | Some u \<Rightarrow> u)"
| "first_url ds = JNull"

definition usable_url :: "json \<Rightarrow> bool" where
  "usable_url url = (truthy url \<and> url \<noteq> JStr ''null'')"

section \<open>The bulk-creation script\<close>

text \<open>
  \<open>create-flexreports.py\<close> from the creation loop on: the manifest has been read into
  \<open>report_definitions\<close> and the login has produced \<open>access_token\<close>. The script has no
  functions; the loop body and the writing of the two lists are modelled statement by
  statement. The outside world of the loop: the random suffix drawn in each iteration,
  the answer to each creation request, and two conversions of the interpreter that are
  taken as given (\<open>str(x)\<close> of a value that is not a \<open>str\<close>, and \<open>int(s)\<close> of a \<open>str\<close>,
  \<open>None\<close> when it raises ValueError).
\<close>

datatype create_response =
    PostRaised string
  | Response nat "json option" string

record bulk_env =
  py_str :: "json \<Rightarrow> string"
  py_int_of_str :: "string \<Rightarrow> int option"
  random_suffix :: "nat \<Rightarrow> string"
  create_http :: "nat \<Rightarrow> create_response"

record bulk_state =
  flex_report_ids :: "json list"
  successful_reports :: "string list"
  printed :: "event list"

definition or_raise :: "py_error + 'a \<Rightarrow> ('a \<Rightarrow> py_error + 'b) \<Rightarrow> py_error + 'b" where
  "or_raise m f = (case m of Inl x \<Rightarrow> Inl x | Inr a \<Rightarrow> f a)"

text \<open>A value inside an f-string.\<close>

definition format_str :: "bulk_env \<Rightarrow> json \<Rightarrow> string" where
  "format_str env v = (case v of JStr s \<Rightarrow> s | _ \<Rightarrow> py_str env v)"

text \<open>\<open>int(x)\<close>.\<close>

definition py_int :: "bulk_env \<Rightarrow> json \<Rightarrow> py_error + int" where
  "py_int env v =
     (case v of
        JInt n \<Rightarrow> Inr n
      | JBool b \<Rightarrow> Inr (if b then 1 else 0)
      | JStr s \<Rightarrow>
          (case py_int_of_str env s of
             None \<Rightarrow> Inl (ValueError ''invalid literal for int() with base 10'')
           | Some n \<Rightarrow> Inr n)
      | _ \<Rightarrow> Inl TypeError)"

text \<open>\<open>for x in v\<close>: the elements of a list, the keys of a dictionary, the characters
  of a string.\<close>

definition py_iter :: "json \<Rightarrow> py_error + json list" where
  "py_iter v =
     (case v of
        JArr xs \<Rightarrow> Inr xs
      | JObj kvs \<Rightarrow> Inr (map (\<lambda>kv. JStr (fst kv)) kvs)
      | JStr s \<Rightarrow> Inr (map (\<lambda>c. JStr [c]) s)
      | _ \<Rightarrow> Inl TypeError)"

definition report_name_with_suffix :: "bulk_env \<Rightarrow> nat \<Rightarrow> json \<Rightarrow> string" where
  "report_name_with_suffix env i report_name =
     format_str env report_name @ '' '' @ random_suffix env i"

text \<open>The dictionary \<open>flex_report_variables\<close>, its values evaluated in order.\<close>

definition flex_report_variables :: "bulk_env \<Rightarrow> json \<Rightarrow> string \<Rightarrow> py_error + json" where
  "flex_report_variables env report_definition name =
     or_raise (py_subscript report_definition ''description'') (\<lambda>description.
     or_raise (py_subscript report_definition ''sqlStatement'') (\<lambda>sqlStatement.
     or_raise (py_subscript report_definition ''dataGranularity'') (\<lambda>dataGranularity.
     or_raise (py_subscript report_definition ''limit'') (\<lambda>lim.
     or_raise (py_int env lim) (\<lambda>limit_int.
     or_raise (py_subscript report_definition ''timeRange'') (\<lambda>timeRange.
     or_raise (py_int env timeRange) (\<lambda>timeRangeLast.
     or_raise (py_subscript report_definition ''backlinking'') (\<lambda>backlinking.
     or_raise (py_subscript report_definition ''excludeCurrent'') (\<lambda>excludeCurrent.
       Inr (JObj [(''name'', JStr name),
                  (''description'', description),
                  (''sqlStatement'', sqlStatement),
                  (''dataGranularity'', dataGranularity),
                  (''limit'', JInt limit_int),
                  (''timeRangeLast'', JInt timeRangeLast),
                  (''needBackLinkingForTags'', JBool (truthy backlinking)),
                  (''excludeCurrent'', JBool (truthy excludeCurrent))]))))))))))"

text \<open>
  The statements of one iteration before the request leaves: the suffixed name, the
  variables, and the header \<open>"Bearer " + access_token\<close>, which needs a \<open>str\<close>.
\<close>

definition prepare :: "bulk_env \<Rightarrow> json \<Rightarrow> nat \<Rightarrow> json \<Rightarrow> py_error + string \<times> json" where
  "prepare env access_tok i report_definition =
     or_raise (py_subscript report_definition ''name'') (\<lambda>report_name.
     or_raise (flex_report_variables env report_definition
                 (report_name_with_suffix env i report_name)) (\<lambda>vars.
       case access_tok of
         JStr t \<Rightarrow> Inr (report_name_with_suffix env i report_name, vars)
       | _ \<Rightarrow> Inl TypeError))"

definition failed_line :: "string \<Rightarrow> string \<Rightarrow> event" where
  "failed_line name reason =
     Print (''Failed to create FlexReport '' @ [CHR 0x27] @ name @ [CHR 0x27] @ ''. '' @ reason)"

text \<open>
  The statements of one iteration after the answer has arrived: the nested unwrapping of
  the response, down to the two \<open>append\<close>s.
\<close>

definition handle_response ::
  "string \<Rightarrow> nat \<Rightarrow> json option \<Rightarrow> string \<Rightarrow> bulk_state \<Rightarrow> py_error + bulk_state" where
  "handle_response name status_code body text st =
     (if status_code = 200 then
        (case body of
           None \<Rightarrow> Inl JSONDecodeError
         | Some flex_report_result \<Rightarrow>
             if flex_report_result \<noteq> JNull then
               or_raise (py_get flex_report_result ''data'' (JObj [])) (\<lambda>flex_report_data.
                 if truthy flex_report_data then
                   or_raise (py_get flex_report_data ''createFlexReport'' (JObj []))
                     (\<lambda>create_flex_report_data.
                       if truthy create_flex_report_data then
                         or_raise (py_get create_flex_report_data ''id'' JNull) (\<lambda>flex_report_id.
                           if truthy flex_report_id then
                             Inr (st\<lparr>flex_report_ids := flex_report_ids st @ [flex_report_id],
                                     printed := printed st @
                                       [Print (''FlexReport '' @ [CHR 0x27] @ name @ [CHR 0x27]
                                                 @ '' created successfully!''),
                                        PrintValue ''FlexReport ID: '' flex_report_id,
                                        Print ''''],
                                     successful_reports := successful_reports st @ [name]\<rparr>)
                           else
                             Inr (st\<lparr>printed := printed st @
                                    [failed_line name ''FlexReport ID not found in response.'']\<rparr>))
                       else
                         Inr (st\<lparr>printed := printed st @
                                [failed_line name
                                   ([CHR 0x27] @ ''createFlexReport'' @ [CHR 0x27]
                                      @ '' key not found in response.'')]\<rparr>))
                 else
                   Inr (st\<lparr>printed := printed st @
                          [failed_line name
                             ([CHR 0x27] @ ''data'' @ [CHR 0x27] @ '' key not found in response.'')]\<rparr>))
             else
               Inr (st\<lparr>printed := printed st @ [failed_line name ''Empty response received.'']\<rparr>))
      else
        Inr (st\<lparr>printed := printed st @
               [PrintValue (''Failed to create FlexReport '' @ [CHR 0x27] @ name @ [CHR 0x27]
                              @ ''. Status code: '') (JInt (int status_code)),
                Print (''Response: '' @ text)]\<rparr>))"

text \<open>
  One iteration of the loop. An exception is caught nowhere: \<open>Inl\<close> is the exception
  that ends the process, with the state reached.
\<close>

definition create_one ::
  "bulk_env \<Rightarrow> json \<Rightarrow> nat \<Rightarrow> json \<Rightarrow> bulk_state \<Rightarrow> py_error \<times> bulk_state + bulk_state" where
  "create_one env access_tok i report_definition st =
     (case prepare env access_tok i report_definition of
        Inl x \<Rightarrow> Inl (x, st)
      | Inr (name, vars) \<Rightarrow>
          (let st1 = st\<lparr>printed := printed st @ [Post (CreateReport vars) (Some access_tok)]\<rparr>
           in case create_http env i of
                PostRaised e \<Rightarrow> Inl (RequestException e, st1)
              | Response status_code body text \<Rightarrow>
                  (case handle_response name status_code body text st1 of
                     Inl x \<Rightarrow> Inl (x, st1)
                   | Inr st2 \<Rightarrow> Inr st2)))"

text \<open>The \<open>for\<close> loop; \<open>i\<close> counts the iterations.\<close>

fun create_loop ::
  "bulk_env \<Rightarrow> json \<Rightarrow> nat \<Rightarrow> json list \<Rightarrow> bulk_state \<Rightarrow> py_error \<times> bulk_state + bulk_state" where
  "create_loop env access_tok i [] st = Inr st"
| "create_loop env access_tok i (report_definition # rest) st =
     (case create_one env access_tok i report_definition st of
        Inl crash \<Rightarrow> Inl crash
      | Inr st2 \<Rightarrow> create_loop env access_tok (Suc i) rest st2)"

definition initial_state :: bulk_state where
  "initial_state = \<lparr>flex_report_ids = [], successful_reports = [], printed = []\<rparr>"

text \<open>
  The two lists are written after the loop, one entry per line: the identifiers always,
  the names under \<open>if successful_reports\<close>. Failures of the file system are not modelled.
\<close>

definition write_lists :: "bulk_state \<Rightarrow> event list" where
  "write_lists st =
     WriteLines ''previous-run.list'' (flex_report_ids st)
     # (if successful_reports st \<noteq> []
        then [WriteLines ''successful_reports.list'' (map JStr (successful_reports st))]
        else [])"

definition create_flexreports :: "bulk_env \<Rightarrow> json \<Rightarrow> json \<Rightarrow> event list \<times> outcome" where
  "create_flexreports env access_tok report_definitions =
     (case py_iter report_definitions of
        Inl x \<Rightarrow> ([], Uncaught x)
      | Inr rds \<Rightarrow>
          (case create_loop env access_tok 0 rds initial_state of
             Inl (x, st) \<Rightarrow> (printed st, Uncaught x)
           | Inr st \<Rightarrow> (printed st @ write_lists st, Finished)))"

text \<open>The files a run has written, in order, with their lines.\<close>

fun files_written :: "event list \<Rightarrow> (string \<times> json list) list" where
  "files_written [] = []"
| "files_written (WriteLines f ls # evs) = (f, ls) # files_written evs"
| "files_written (ev # evs) = files_written evs"

text \<open>
  The identifier a creation response carries, read the way the loop reads it: status
  200, a dictionary at every level, a truthy value at every level.
\<close>

definition response_id :: "create_response \<Rightarrow> json option" where
  "response_id resp =
     (case resp of
        Response status_code (Some (JObj kvs)) text \<Rightarrow>
          if status_code = 200 then
            (case map_of kvs ''data'' of
               Some (JObj d) \<Rightarrow>
                 (case map_of d ''createFlexReport'' of
                    Some (JObj c) \<Rightarrow>
                      (case map_of c ''id'' of
                         Some v \<Rightarrow> if truthy v then Some v else None
                       | None \<Rightarrow> None)
                  | _ \<Rightarrow> None)
             | _ \<Rightarrow> None)
          else None
      | _ \<Rightarrow> None)"

text \<open>
  A response with status 200 whose body is nested as expected (dictionaries) but lacks
  one of the keys \<open>data\<close>, \<open>createFlexReport\<close>, \<open>id\<close>.
\<close>

definition missing_key :: "create_response \<Rightarrow> bool" where
  "missing_key resp =
     (case resp of
        Response status_code (Some (JObj kvs)) text \<Rightarrow>
          status_code = 200 \<and>
          (case map_of kvs ''data'' of
             None \<Rightarrow> True
           | Some (JObj d) \<Rightarrow>
               (case map_of d ''createFlexReport'' of
                  None \<Rightarrow> True
                | Some (JObj c) \<Rightarrow> map_of c ''id'' = None
                | _ \<Rightarrow> False)
           | _ \<Rightarrow> False)
      | _ \<Rightarrow> False)"

text \<open>An iteration whose request can be built.\<close>

definition request_ready :: "bulk_env \<Rightarrow> json \<Rightarrow> nat \<Rightarrow> json \<Rightarrow> bool" where
  "request_ready env access_tok i rd =
     (case prepare env access_tok i rd of Inl x \<Rightarrow> False | Inr p \<Rightarrow> True)"

definition entry_name :: "bulk_env \<Rightarrow> nat \<Rightarrow> json \<Rightarrow> string" where
  "entry_name env i rd =
     (case py_subscript rd ''name'' of
        Inl x \<Rightarrow> []
      | Inr report_name \<Rightarrow> report_name_with_suffix env i report_name)"

text \<open>
  The entries a run has created, in order: identifier and suffixed name of every
  iteration whose response carries an identifier.
\<close>

fun created_pairs :: "bulk_env \<Rightarrow> nat \<Rightarrow> json list \<Rightarrow> (json \<times> string) list" where
  "created_pairs env i [] = []"
| "created_pairs env i (rd # rds) =
     (case response_id (create_http env i) of
        None \<Rightarrow> created_pairs env (Suc i) rds
      | Some v \<Rightarrow> (v, entry_name env i rd) # created_pairs env (Suc i) rds)"

text \<open>A manifest entry, the answer that creates it, and a world for examples.\<close>

definition definition0 :: "string \<Rightarrow> json" where
  "definition0 name =
     JObj [(''name'', JStr name), (''description'', JStr ''d''),
           (''sqlStatement'', JStr ''SELECT 1''), (''dataGranularity'', JStr ''MONTHLY''),
           (''limit'', JInt 100), (''timeRange'', JInt 12),
           (''backlinking'', JBool False), (''excludeCurrent'', JBool True)]"

definition created_response :: "json list \<Rightarrow> create_response" where
  "created_response idf =
     Response 200
       (Some (JObj [(''data'', JObj [(''createFlexReport'',
          JObj (map (\<lambda>v. (''id'', v)) idf @ [(''name'', JStr ''n'')]))])])) ''ok''"

definition world0 :: "(nat \<Rightarrow> create_response) \<Rightarrow> bulk_env" where
  "world0 answers =
     \<lparr>py_str = (\<lambda>v. ''?''), py_int_of_str = (\<lambda>s. None),
      random_suffix = (\<lambda>i. ''X7Q2ZK''), create_http = answers\<rparr>"

text \<open>The state a run of the loop has reached, whether it ended in an exception or not.\<close>

fun state_of :: "py_error \<times> bulk_state + bulk_state \<Rightarrow> bulk_state" where
  "state_of (Inl (x, st)) = st"
| "state_of (Inr st) = st"

text \<open>
  The files a completed run leaves for the created entries \<open>ps\<close>: the identifiers in
  \<open>previous-run.list\<close>, and the names in \<open>successful_reports.list\<close> when there is one.
\<close>

definition expected_files :: "(json \<times> string) list \<Rightarrow> (string \<times> json list) list" where
  "expected_files ps =
     (''previous-run.list'', map fst ps)
     # (if ps = [] then [] else [(''successful_reports.list'', map (\<lambda>p. JStr (snd p)) ps)])"

text \<open>
  A manifest of three entries and the answers of the endpoint to their creation: the
  first and the third are created, the answer to the second omits \<open>id\<close>.
\<close>

definition manifest3 :: "json list" where
  "manifest3 = [definition0 ''A'', definition0 ''B'', definition0 ''C'']"

definition answers3 :: "nat \<Rightarrow> create_response" where
  "answers3 i =
     (if i = 0 then created_response [JStr ''id-a'']
      else if i = 1 then created_response []
      else created_response [JStr ''id-c''])"

section \<open>Properties\<close>

lemma sleeps_append: "sleeps (xs @ ys) = sleeps xs @ sleeps ys"
  by (induction xs rule: sleeps.induct) auto

lemma status_checks_append: "status_checks (xs @ ys) = status_checks xs + status_checks ys"
  by (simp add: status_checks_def)

lemma execute_query_events:
  "execute_query c q a http = (evs, Inr d) \<Longrightarrow> evs = [Post q (if a then Some (access_token c) else None)]"
  by (auto simp: execute_query_def Let_def split: if_splits http_result.splits sum.splits bool.splits)

lemma get_report_info_events:
  "get_report_info c r http = (evs, Inr d) \<Longrightarrow> evs = [Post (QueryReport r) (Some (access_token c))]"
  unfolding get_report_info_def
  by (auto split: prod.splits sum.splits dest: execute_query_events)

lemma check_status_events:
  "check_status c r http = (evs, Inr d) \<Longrightarrow> evs = [Post (QueryReport r) (Some (access_token c))]"
  unfolding check_status_def
  by (auto split: prod.splits sum.splits dest: get_report_info_events)

lemma poll_loop_continue:
  assumes "check_status c r (polls 0) = (evs, Inr (info, st))"
    and "st \<noteq> JStr ''COMPLETED''" "st \<noteq> JStr ''QUEUED''" "st \<noteq> JStr ''FAILED''"
    and "counter < max_retries" and "0 < counter"
  shows "poll_loop c r polls counter s =
     (evs @ [PrintStatusCheck counter st, PrintNextCheck (s * 3 div 2), Print '''', Sleep (s * 3 div 2)]
        @ fst (poll_loop c r (\<lambda>k. polls (Suc k)) (counter + 1) (s * 3 div 2)),
      snd (poll_loop c r (\<lambda>k. polls (Suc k)) (counter + 1) (s * 3 div 2)))"
  using assms by (subst poll_loop.simps) (simp add: split_beta)

lemma poll_loop_ceiling:
  assumes "check_status c r (polls 0) = (evs, Inr (info, st))"
    and "st \<noteq> JStr ''COMPLETED''" "st \<noteq> JStr ''QUEUED''" "st \<noteq> JStr ''FAILED''"
    and "max_retries \<le> counter"
  shows "poll_loop c r polls counter s = (evs @ PrintStatusCheck counter st # the_timeout_lines, Inl (Exit 1))"
  using assms by (subst poll_loop.simps) (simp add: the_timeout_lines_def)

lemma keeps_pollingD:
  "keeps_polling c r http \<Longrightarrow> \<exists>info st. check_status c r http = ([Post (QueryReport r) (Some (access_token c))], Inr (info, st))
     \<and> st \<noteq> JStr ''COMPLETED'' \<and> st \<noteq> JStr ''QUEUED'' \<and> st \<noteq> JStr ''FAILED''"
  unfolding keeps_polling_def
  by (auto split: prod.splits sum.splits dest: check_status_events)

lemma execute_query_checks:
  "status_checks (fst (execute_query c q a http)) \<le> 1"
  by (auto simp: execute_query_def Let_def status_checks_def split: http_result.splits sum.splits bool.splits)

lemma check_status_fst: "fst (check_status c r http) = fst (execute_query c (QueryReport r) True http)"
  by (simp add: check_status_def get_report_info_def split: prod.splits sum.splits)

lemma check_status_checks: "status_checks (fst (check_status c r http)) \<le> 1"
  using execute_query_checks[of c "QueryReport r" True http] by (simp add: check_status_fst)

lemma status_checks_simps:
  "status_checks [] = 0"
  "status_checks (Post (QueryReport r) t # evs) = Suc (status_checks evs)"
  "status_checks (Print l # evs) = status_checks evs"
  "status_checks (PrintError l x # evs) = status_checks evs"
  "status_checks (PrintStatusCheck n j # evs) = status_checks evs"
  "status_checks (PrintNextCheck n # evs) = status_checks evs"
  "status_checks (Sleep n # evs) = status_checks evs"
  by (simp_all add: status_checks_def)

lemma poll_loop_bounded:
  "status_checks (fst (poll_loop c r polls counter s)) \<le> Suc (max_retries - counter)"
proof (induction c r polls counter s rule: poll_loop.induct)
  case (1 c r polls counter s)
  obtain evs res where cs: "check_status c r (polls 0) = (evs, res)" by (cases "check_status c r (polls 0)")
  have le: "status_checks evs \<le> 1" using check_status_checks[of c r "polls 0"] cs by simp
  show ?case
  proof (cases res)
    case (Inl x)
    then show ?thesis using cs le
      by (subst poll_loop.simps) (simp add: status_checks_append status_checks_simps)
  next
    case (Inr p)
    obtain info st where p: "p = (info, st)" by (cases p)
    show ?thesis
    proof (cases "st = JStr ''COMPLETED'' \<or> st = JStr ''QUEUED'' \<or> st = JStr ''FAILED'' \<or> max_retries \<le> counter")
      case True
      then show ?thesis using cs le Inr p
        by (subst poll_loop.simps) (auto simp add: status_checks_append status_checks_simps print_header_def)
    next
      case False
      then have IH: "status_checks (fst (poll_loop c r (\<lambda>k. polls (Suc k)) (counter + 1)
                    (if counter + 1 > 1 then s * 3 div 2 else s))) \<le> Suc (max_retries - (counter + 1))"
        using "1.IH"[OF cs[symmetric] Inr p[symmetric]] by simp
      from False have "counter < max_retries" by simp
      then show ?thesis using cs le Inr p False IH
        by (subst poll_loop.simps) (simp add: status_checks_append status_checks_simps split_beta)
    qed
  qed
qed

lemma ends_with_Cons: "\<exists>pre. xs = pre @ t \<Longrightarrow> \<exists>pre. x # xs = pre @ t"
  by (metis append_Cons)

lemma poll_loop_all_running:
  assumes "\<forall>k\<le>n. keeps_polling c r (polls k)" and "0 < counter" and "counter + n = max_retries"
  shows "snd (poll_loop c r polls counter s) = Inl (Exit 1)
       \<and> status_checks (fst (poll_loop c r polls counter s)) = Suc n
       \<and> (\<exists>pre. fst (poll_loop c r polls counter s) = pre @ the_timeout_lines)"
  using assms
proof (induction n arbitrary: polls counter s)
  case 0
  then obtain info st where cs: "check_status c r (polls 0) = ([Post (QueryReport r) (Some (access_token c))], Inr (info, st))"
    and st: "st \<noteq> JStr ''COMPLETED''" "st \<noteq> JStr ''QUEUED''" "st \<noteq> JStr ''FAILED''"
    using keeps_pollingD[of c r "polls 0"] by auto
  from 0 have "max_retries \<le> counter" by simp
  from poll_loop_ceiling[where polls=polls and s=s, OF cs st this] show ?case
    by (simp add: status_checks_simps status_checks_append the_timeout_lines_def print_header_def)
next
  case (Suc n)
  then obtain info st where cs: "check_status c r (polls 0) = ([Post (QueryReport r) (Some (access_token c))], Inr (info, st))"
    and st: "st \<noteq> JStr ''COMPLETED''" "st \<noteq> JStr ''QUEUED''" "st \<noteq> JStr ''FAILED''"
    using keeps_pollingD[of c r "polls 0"] by auto
  from Suc.prems have lt: "counter < max_retries" by simp
  have IH: "snd (poll_loop c r (\<lambda>k. polls (Suc k)) (counter + 1) (s * 3 div 2)) = Inl (Exit 1)
       \<and> status_checks (fst (poll_loop c r (\<lambda>k. polls (Suc k)) (counter + 1) (s * 3 div 2))) = Suc n
       \<and> (\<exists>pre. fst (poll_loop c r (\<lambda>k. polls (Suc k)) (counter + 1) (s * 3 div 2)) = pre @ the_timeout_lines)"
    using Suc.prems by (intro Suc.IH) auto
  then obtain pre where pre: "fst (poll_loop c r (\<lambda>k. polls (Suc k)) (counter + 1) (s * 3 div 2)) = pre @ the_timeout_lines"
    by blast
  show ?case
    unfolding poll_loop_continue[where polls=polls and s=s, OF cs st lt \<open>0 < counter\<close>]
    using IH by (auto simp add: status_checks_simps status_checks_append intro!: ends_with_Cons)
qed



lemma get_report_info_report_body:
  "truthy (access_token c) \<Longrightarrow>
   get_report_info c r (report_body name st cs) =
     ([Post (QueryReport r) (Some (access_token c))], Inr (report_node name st cs))"
  by (simp add: get_report_info_def execute_query_def report_body_def report_node_def)

lemma check_status_report_body:
  "truthy (access_token c) \<Longrightarrow>
   check_status c r (report_body name st cs) =
     ([Post (QueryReport r) (Some (access_token c))],
      if truthy st then Inr (report_node name st cs, st)
      else Inl (ValueError ''Failed to retrieve report status''))"
  by (simp add: check_status_def get_report_info_report_body) (simp add: report_node_def)

lemma reports_statusD:
  "reports_status c r http st \<Longrightarrow>
   \<exists>info. check_status c r http = ([Post (QueryReport r) (Some (access_token c))], Inr (info, st))"
  unfolding reports_status_def
  by (auto split: prod.splits sum.splits dest: check_status_events)

lemma poll_loop_completed:
  assumes "check_status c r (polls 0) = (evs, Inr (info, JStr ''COMPLETED''))"
  shows "poll_loop c r polls counter s =
     (evs @ PrintStatusCheck counter (JStr ''COMPLETED'') # the_completed_lines, Inr info)"
  using assms by (subst poll_loop.simps) (simp add: the_completed_lines_def)

lemma poll_loop_queued:
  assumes "check_status c r (polls 0) = (evs, Inr (info, JStr ''QUEUED''))"
  shows "poll_loop c r polls counter s =
     (evs @ PrintStatusCheck counter (JStr ''QUEUED'') # the_queued_lines, Inl (Exit 1))"
  using assms by (subst poll_loop.simps) (simp add: the_queued_lines_def)

lemma poll_loop_failed:
  assumes "check_status c r (polls 0) = (evs, Inr (info, JStr ''FAILED''))"
  shows "poll_loop c r polls counter s =
     (evs @ PrintStatusCheck counter (JStr ''FAILED'') # the_failed_lines, Inl (Exit 1))"
  using assms by (subst poll_loop.simps) (simp add: the_failed_lines_def)

lemma poll_loop_prefix:
  assumes "\<forall>j<k. keeps_polling c r (polls j)" and "0 < counter" and "counter + k \<le> max_retries"
  shows "\<exists>pre s'. status_checks pre = k
       \<and> fst (poll_loop c r polls counter s)
           = pre @ fst (poll_loop c r (\<lambda>i. polls (k + i)) (counter + k) s')
       \<and> snd (poll_loop c r polls counter s)
           = snd (poll_loop c r (\<lambda>i. polls (k + i)) (counter + k) s')"
  using assms
proof (induction k arbitrary: polls counter s)
  case 0
  have "status_checks [] = 0
      \<and> fst (poll_loop c r polls counter s) = [] @ fst (poll_loop c r (\<lambda>i. polls (0 + i)) (counter + 0) s)
      \<and> snd (poll_loop c r polls counter s) = snd (poll_loop c r (\<lambda>i. polls (0 + i)) (counter + 0) s)"
    by (simp add: status_checks_def)
  then show ?case by blast
next
  case (Suc k)
  then obtain info st where cs: "check_status c r (polls 0) = ([Post (QueryReport r) (Some (access_token c))], Inr (info, st))"
    and st: "st \<noteq> JStr ''COMPLETED''" "st \<noteq> JStr ''QUEUED''" "st \<noteq> JStr ''FAILED''"
    using keeps_pollingD[of c r "polls 0"] by auto
  from Suc.prems have lt: "counter < max_retries" by simp
  let ?polls = "\<lambda>i. polls (Suc i)"
  let ?s = "s * 3 div 2"
  have "\<exists>pre s'. status_checks pre = k
       \<and> fst (poll_loop c r ?polls (counter + 1) ?s)
           = pre @ fst (poll_loop c r (\<lambda>i. ?polls (k + i)) (counter + 1 + k) s')
       \<and> snd (poll_loop c r ?polls (counter + 1) ?s)
           = snd (poll_loop c r (\<lambda>i. ?polls (k + i)) (counter + 1 + k) s')"
    using Suc.prems by (intro Suc.IH) auto
  then obtain pre s' where pre: "status_checks pre = k"
    and f: "fst (poll_loop c r ?polls (counter + 1) ?s)
           = pre @ fst (poll_loop c r (\<lambda>i. polls (Suc k + i)) (counter + Suc k) s')"
    and g: "snd (poll_loop c r ?polls (counter + 1) ?s)
           = snd (poll_loop c r (\<lambda>i. polls (Suc k + i)) (counter + Suc k) s')"
    by auto
  let ?pre = "[Post (QueryReport r) (Some (access_token c)), PrintStatusCheck counter st,
       PrintNextCheck ?s, Print '''', Sleep ?s] @ pre"
  have "status_checks ?pre = Suc k
      \<and> fst (poll_loop c r polls counter s) = ?pre @ fst (poll_loop c r (\<lambda>i. polls (Suc k + i)) (counter + Suc k) s')
      \<and> snd (poll_loop c r polls counter s) = snd (poll_loop c r (\<lambda>i. polls (Suc k + i)) (counter + Suc k) s')"
    unfolding poll_loop_continue[where polls=polls and s=s, OF cs st lt \<open>0 < counter\<close>]
    using pre f g by (simp add: status_checks_simps)
  then show ?case by blast
qed

text \<open>
  Claim C1, as the code has it. When each of the first five poll responses passes the
  status check (the status is truthy) with a status other than COMPLETED, QUEUED and
  FAILED, the loop makes exactly five status checks and ends the process with exit
  status 1 after the timeout lines. The loop is a total function, and on any responses
  whatever it makes at most five status checks: it never runs on.
\<close>

theorem poll_loop_timeout_at_ceiling:
  assumes "\<forall>k<5. keeps_polling c report_id (polls k)"
  shows "snd (poll_step c report_id polls) = Inl (Exit 1)
       \<and> status_checks (fst (poll_step c report_id polls)) = 5
       \<and> (\<exists>pre. fst (poll_step c report_id polls) = pre @ the_timeout_lines)
       \<and> (\<forall>other. status_checks (fst (poll_step c report_id other)) \<le> 5)"
proof -
  have a: "\<forall>k\<le>4. keeps_polling c report_id (polls k)" using assms by auto
  have b: "(1::nat) + 4 = max_retries" by (simp add: max_retries_def)
  have c: "\<And>other. status_checks (fst (poll_loop c report_id other 1 10)) \<le> 5"
    using poll_loop_bounded[of c report_id _ 1 10] by (simp add: max_retries_def)
  from poll_loop_all_running[OF a _ b, of 10] c show ?thesis
    by (auto simp: poll_step_def split_beta status_checks_simps intro!: ends_with_Cons)
qed

text \<open>C1 at a concrete run: every response reports RUNNING.\<close>

theorem poll_loop_timeout_at_ceiling_witness:
  "snd (poll_step client0 ''r'' (\<lambda>k. report_body ''Report'' (JStr ''RUNNING'') [])) = Inl (Exit 1)
   \<and> status_checks (fst (poll_step client0 ''r'' (\<lambda>k. report_body ''Report'' (JStr ''RUNNING'') []))) = 5"
proof -
  have "\<forall>k<5. keeps_polling client0 ''r'' ((\<lambda>k. report_body ''Report'' (JStr ''RUNNING'') []) k)"
    by (simp add: keeps_polling_def check_status_report_body client0_def)
  from poll_loop_timeout_at_ceiling[OF this] show ?thesis by simp
qed

text \<open>
  C1 as stated fails on a status value that is not truthy: the empty string is none of
  COMPLETED, QUEUED, FAILED, yet the run ends at the first check with the status-check
  error, not at the retry ceiling.
\<close>

theorem poll_empty_status_counterexample:
  "JStr '''' \<noteq> JStr ''COMPLETED'' \<and> JStr '''' \<noteq> JStr ''QUEUED'' \<and> JStr '''' \<noteq> JStr ''FAILED''
   \<and> poll_step client0 ''r'' (\<lambda>k. report_body ''Report'' (JStr '''') [])
       = ([Sleep 15, Post (QueryReport ''r'') (Some (JStr ''token'')),
           PrintError ''ERROR: Failed to check report status - ''
             (ValueError ''Failed to retrieve report status'')],
          Inl (Exit 1))
   \<and> status_checks (fst (poll_step client0 ''r'' (\<lambda>k. report_body ''Report'' (JStr '''') []))) = 1"
  by (simp add: poll_step_def poll_loop.simps check_status_report_body client0_def
      status_checks_simps)

text \<open>
  Claim C2 at a run in which every response reports RUNNING: after the first wait of 15
  the delays slept between the five checks are 15, 22, 33, 49. The initial value 10 of
  \<open>sleep_time\<close> is never slept, since the counter is incremented before the test
  \<open>counter > 1\<close>.
\<close>

theorem poll_delays_all_running:
  "sleeps (fst (poll_step client0 ''r'' (\<lambda>k. report_body ''Report'' (JStr ''RUNNING'') [])))
     = [15, 15, 22, 33, 49]"
  by (simp add: poll_step_def poll_loop.simps check_status_report_body client0_def
      max_retries_def split_beta print_header_def)

text \<open>
  Claim C3. When the first three poll responses report RUNNING, RUNNING, COMPLETED, the
  loop makes exactly three status checks, leaves with the report information of the
  third response, and \<open>main\<close> goes on with the download step on it.
\<close>

theorem poll_running_running_completed:
  assumes "reports_status c report_id (polls 0) (JStr ''RUNNING'')"
    and "reports_status c report_id (polls 1) (JStr ''RUNNING'')"
    and "reports_status c report_id (polls 2) (JStr ''COMPLETED'')"
  shows "status_checks (fst (poll_step c report_id polls)) = 3
       \<and> (\<exists>report_info.
             snd (check_status c report_id (polls 2)) = Inr (report_info, JStr ''COMPLETED'')
           \<and> snd (poll_step c report_id polls) = Inr report_info
           \<and> seq (poll_step c report_id polls) (\<lambda>report_info. download_step report_info report_name dl)
               = (fst (poll_step c report_id polls) @ fst (download_step report_info report_name dl),
                  snd (download_step report_info report_name dl)))"
proof -
  have kp: "\<forall>j<2. keeps_polling c report_id (polls j)"
  proof (intro allI impI)
    fix j :: nat assume "j < 2"
    then have "j = 0 \<or> j = 1" by auto
    then show "keeps_polling c report_id (polls j)"
      using assms(1,2) by (auto simp: keeps_polling_def reports_status_def split: prod.splits sum.splits)
  qed
  obtain info where cs: "check_status c report_id (polls 2)
      = ([Post (QueryReport report_id) (Some (access_token c))], Inr (info, JStr ''COMPLETED''))"
    using reports_statusD[OF assms(3)] by blast
  obtain pre s' where pre: "status_checks pre = 2"
    and f: "fst (poll_loop c report_id polls 1 10)
           = pre @ fst (poll_loop c report_id (\<lambda>i. polls (2 + i)) (1 + 2) s')"
    and g: "snd (poll_loop c report_id polls 1 10)
           = snd (poll_loop c report_id (\<lambda>i. polls (2 + i)) (1 + 2) s')"
    using poll_loop_prefix[OF kp, of 1 10] by (auto simp: max_retries_def)
  have last: "poll_loop c report_id (\<lambda>i. polls (2 + i)) (1 + 2) s'
     = ([Post (QueryReport report_id) (Some (access_token c))]
          @ PrintStatusCheck (1 + 2) (JStr ''COMPLETED'') # the_completed_lines, Inr info)"
    by (rule poll_loop_completed) (simp add: cs)
  have 1: "status_checks (fst (poll_step c report_id polls)) = 3"
    unfolding poll_step_def split_beta f last
    using pre by (simp add: status_checks_simps status_checks_append
        the_completed_lines_def print_header_def)
  have 2: "snd (poll_step c report_id polls) = Inr info"
    unfolding poll_step_def split_beta g last by simp
  have 3: "seq (poll_step c report_id polls) (\<lambda>report_info. download_step report_info report_name dl)
               = (fst (poll_step c report_id polls) @ fst (download_step info report_name dl),
                  snd (download_step info report_name dl))"
    using 2 by (cases "poll_step c report_id polls") (simp add: seq_def split_beta)
  from 1 2 3 cs show ?thesis by simp
qed

text \<open>
  Claim C4. When the loop reaches a poll response (the \<open>k\<close> responses before it keep
  the loop polling, \<open>k < 5\<close>) that reports QUEUED or FAILED, the process ends with exit
  status 1 at that check: \<open>k + 1\<close> status checks have been made, and the last events are
  the line of that check followed by the message for the operator.
\<close>

theorem poll_loop_aborts_on_queued_or_failed:
  assumes "\<forall>j<k. keeps_polling c report_id (polls j)" and "k < 5"
    and "reports_status c report_id (polls k) st"
    and "st = JStr ''QUEUED'' \<or> st = JStr ''FAILED''"
  shows "snd (poll_step c report_id polls) = Inl (Exit 1)
       \<and> status_checks (fst (poll_step c report_id polls)) = Suc k
       \<and> (\<exists>pre. fst (poll_step c report_id polls)
             = pre @ PrintStatusCheck (Suc k) st
                 # (if st = JStr ''QUEUED'' then the_queued_lines else the_failed_lines))"
proof -
  obtain info where cs: "check_status c report_id (polls k)
      = ([Post (QueryReport report_id) (Some (access_token c))], Inr (info, st))"
    using reports_statusD[OF assms(3)] by blast
  obtain pre s' where pre: "status_checks pre = k"
    and f: "fst (poll_loop c report_id polls 1 10)
           = pre @ fst (poll_loop c report_id (\<lambda>i. polls (k + i)) (1 + k) s')"
    and g: "snd (poll_loop c report_id polls 1 10)
           = snd (poll_loop c report_id (\<lambda>i. polls (k + i)) (1 + k) s')"
    using poll_loop_prefix[OF assms(1), of 1 10] assms(2) by (auto simp: max_retries_def)
  have last: "poll_loop c report_id (\<lambda>i. polls (k + i)) (1 + k) s'
     = ([Post (QueryReport report_id) (Some (access_token c))]
          @ PrintStatusCheck (1 + k) st
              # (if st = JStr ''QUEUED'' then the_queued_lines else the_failed_lines),
        Inl (Exit 1))"
  proof (cases "st = JStr ''QUEUED''")
    case True
    have "poll_loop c report_id (\<lambda>i. polls (k + i)) (1 + k) s'
       = ([Post (QueryReport report_id) (Some (access_token c))]
            @ PrintStatusCheck (1 + k) (JStr ''QUEUED'') # the_queued_lines, Inl (Exit 1))"
      by (rule poll_loop_queued) (use cs True in simp)
    then show ?thesis using True by simp
  next
    case False
    then have F: "st = JStr ''FAILED''" using assms(4) by simp
    have "poll_loop c report_id (\<lambda>i. polls (k + i)) (1 + k) s'
       = ([Post (QueryReport report_id) (Some (access_token c))]
            @ PrintStatusCheck (1 + k) (JStr ''FAILED'') # the_failed_lines, Inl (Exit 1))"
      by (rule poll_loop_failed) (use cs F in simp)
    then show ?thesis using F by simp
  qed
  have 1: "snd (poll_step c report_id polls) = Inl (Exit 1)"
    unfolding poll_step_def split_beta g last by simp
  have 2: "status_checks (fst (poll_step c report_id polls)) = Suc k"
    unfolding poll_step_def split_beta f last
    using pre by (simp add: status_checks_simps status_checks_append
        the_queued_lines_def the_failed_lines_def print_header_def)
  have 3: "fst (poll_step c report_id polls)
      = (Sleep 15 # pre @ [Post (QueryReport report_id) (Some (access_token c))])
          @ PrintStatusCheck (Suc k) st
              # (if st = JStr ''QUEUED'' then the_queued_lines else the_failed_lines)"
    unfolding poll_step_def split_beta f last by simp
  from 1 2 3 show ?thesis by blast
qed

text \<open>C3 at a concrete run.\<close>

theorem poll_running_running_completed_witness:
  "status_checks (fst (poll_step client0 ''r''
      (\<lambda>k. if k < 2 then report_body ''Report'' (JStr ''RUNNING'') []
           else report_body ''Report'' (JStr ''COMPLETED'') []))) = 3
   \<and> snd (poll_step client0 ''r''
      (\<lambda>k. if k < 2 then report_body ''Report'' (JStr ''RUNNING'') []
           else report_body ''Report'' (JStr ''COMPLETED'') []))
     = Inr (report_node ''Report'' (JStr ''COMPLETED'') [])"
proof -
  let ?polls = "\<lambda>k::nat. if k < 2 then report_body ''Report'' (JStr ''RUNNING'') []
           else report_body ''Report'' (JStr ''COMPLETED'') []"
  have t: "truthy (access_token client0)" by (simp add: client0_def)
  have 0: "reports_status client0 ''r'' (?polls 0) (JStr ''RUNNING'')"
    by (simp add: reports_status_def check_status_report_body[OF t])
  have 1: "reports_status client0 ''r'' (?polls 1) (JStr ''RUNNING'')"
    by (simp add: reports_status_def check_status_report_body[OF t])
  have 2: "reports_status client0 ''r'' (?polls 2) (JStr ''COMPLETED'')"
    by (simp add: reports_status_def check_status_report_body[OF t])
  from poll_running_running_completed[where polls = ?polls, OF 0 1 2, of JNull "DownloadFailed []"]
  show ?thesis by (auto simp: check_status_report_body[OF t])
qed

text \<open>C4 at a concrete run: RUNNING, then FAILED.\<close>

theorem poll_loop_aborts_on_queued_or_failed_witness:
  "snd (poll_step client0 ''r''
      (\<lambda>k. if k < 1 then report_body ''Report'' (JStr ''RUNNING'') []
           else report_body ''Report'' (JStr ''FAILED'') [])) = Inl (Exit 1)
   \<and> status_checks (fst (poll_step client0 ''r''
      (\<lambda>k. if k < 1 then report_body ''Report'' (JStr ''RUNNING'') []
           else report_body ''Report'' (JStr ''FAILED'') []))) = 2"
proof -
  let ?polls = "\<lambda>k::nat. if k < 1 then report_body ''Report'' (JStr ''RUNNING'') []
           else report_body ''Report'' (JStr ''FAILED'') []"
  have t: "truthy (access_token client0)" by (simp add: client0_def)
  have 0: "\<forall>j<1. keeps_polling client0 ''r'' (?polls j)"
    by (simp add: keeps_polling_def check_status_report_body[OF t])
  have 1: "reports_status client0 ''r'' (?polls 1) (JStr ''FAILED'')"
    by (simp add: reports_status_def check_status_report_body[OF t])
  from poll_loop_aborts_on_queued_or_failed[where polls = ?polls and k = 1, OF 0 _ 1]
  show ?thesis by simp
qed

lemma in_class_chars:
  "\<forall>c. in_class c = List.member
      (''abcdefghijklmnopqrstuvwxyz'' @ ''ABCDEFGHIJKLMNOPQRSTUVWXYZ'' @ ''0123456789'' @ ''._-'') c"
  by code_simp

text \<open>
  Claim C5. \<open>sanitize_filename\<close> keeps the characters of \<open>[a-zA-Z0-9._-]\<close> and puts an
  underscore for every other character, the space among them; the name
  \<open>My Report (Q1)!.csv\<close> becomes \<open>My_Report__Q1__.csv\<close>, of base \<open>My_Report__Q1__\<close>.
\<close>

theorem sanitize_filename_replaces:
  "sanitize_filename s = map (\<lambda>c. if in_class c then c else CHR ''_'') s
   \<and> in_class c = (c \<in> set (''abcdefghijklmnopqrstuvwxyz'' @ ''ABCDEFGHIJKLMNOPQRSTUVWXYZ''
                              @ ''0123456789'' @ ''._-''))
   \<and> sanitize_filename ''My Report (Q1)!.csv'' = ''My_Report__Q1__'' @ ''.csv''"
proof -
  have sp: "\<not> in_class (CHR '' '')" and us: "in_class (CHR ''_'')"
    by (simp_all add: in_class_def)
  have 1: "sanitize_filename s = map (\<lambda>c. if in_class c then c else CHR ''_'') s"
    using sp us by (induction s) (auto simp: sanitize_filename_def replace_space_def re_sub_class_def)
  have 2: "in_class c = (c \<in> set (''abcdefghijklmnopqrstuvwxyz'' @ ''ABCDEFGHIJKLMNOPQRSTUVWXYZ''
                              @ ''0123456789'' @ ''._-''))"
    using in_class_chars by simp
  have 3: "sanitize_filename ''My Report (Q1)!.csv'' = ''My_Report__Q1__'' @ ''.csv''"
    by (simp add: sanitize_filename_def replace_space_def re_sub_class_def in_class_def)
  from 1 2 3 show ?thesis by blast
qed

text \<open>\<open>authenticate\<close> posts exactly one login mutation, whatever the answer.\<close>

lemma authenticate_one_login:
  "fst (authenticate c http) = [Post (Login (api_key c)) None]"
  by (simp add: authenticate_def execute_query_def Let_def
      split: http_result.splits sum.splits bool.splits)

text \<open>A token that \<open>authenticate\<close> accepts is truthy and not the string \<open>"null"\<close>.\<close>

lemma authenticate_token:
  "authenticate c http = (evs, Inr c') \<Longrightarrow>
     truthy (access_token c') \<and> access_token c' \<noteq> JStr ''null'' \<and> api_key c' = api_key c"
  by (auto simp: authenticate_def split: prod.splits sum.splits bool.splits if_splits)

text \<open>
  Claim C6 at a malformed login response, \<open>{"data": {"loginAPI": null}}\<close>:
  \<open>authenticate\<close> posts the login once and raises TypeError, which the handler
  \<open>except (ValueError, RuntimeError)\<close> of \<open>main\<close> does not catch; the script ends with a
  traceback instead of the line \<open>ERROR: Authentication failed\<close>.
\<close>

theorem authenticate_null_login_uncaught:
  "auth_step ''key'' (Body (JObj [(''data'', JObj [(''loginAPI'', JNull)])]))
     = ([Print [], Print ''Authenticating with CloudHealth API...'', Post (Login ''key'') None],
        Inl (Uncaught TypeError))
   \<and> main \<lparr>api_key_input = Some ''key'',
           login_http = Body (JObj [(''data'', JObj [(''loginAPI'', JNull)])]),
           report_id_input = Some ''r'', info_http = NotJson, execute_http = NotJson,
           poll_http = (\<lambda>k. NotJson), download_http = DownloadFailed ''''\<rparr>
     = (print_header ''CloudHealth FlexReport Execution Tool''
          @ [Print '''', Prompt ''Enter your CloudHealth API key: '', Print '''',
             Print ''Authenticating with CloudHealth API...'', Post (Login ''key'') None],
        Uncaught TypeError)"
  by (simp add: authenticate_def execute_query_def new_client_def main_def main_steps_def
      seq_def prompt_def auth_step_def)

lemma downloads_append: "downloads (xs @ ys) = downloads xs @ downloads ys"
  by (induction xs rule: downloads.induct) auto

lemma download_url_first:
  assumes "map_of n ''result'' = Some (JObj res)" and "map_of res ''contents'' = Some (JArr ds)"
    and "first_is_object ds"
  shows "download_url (JObj n) =
     (if ds = [] then Inl IndexError
      else if usable_url (first_url ds) then Inr (first_url ds)
      else Inl (ValueError ''Failed to retrieve download URL''))"
proof (cases ds)
  case Nil
  then show ?thesis using assms by (simp add: download_url_def)
next
  case (Cons d rest)
  then obtain kvs where "d = JObj kvs" using assms(3) by (cases d) auto
  then show ?thesis using assms Cons
    by (auto simp: download_url_def usable_url_def split: option.splits)
qed

text \<open>
  Claim C10. When the result of the completed report carries a list of content
  descriptors, the only download requested is the \<open>preSignedUrl\<close> of the first one;
  when the list is empty, or that URL is missing, not truthy or the string \<open>"null"\<close>,
  nothing is downloaded and the process ends with exit status 1. The descriptors after
  the first are never read.
\<close>

theorem download_uses_first_descriptor:
  assumes "map_of n ''result'' = Some (JObj res)" and "map_of res ''contents'' = Some (JArr ds)"
    and "first_is_object ds"
  shows "downloads (fst (download_step (JObj n) (JStr name) dl))
           = (if ds \<noteq> [] \<and> usable_url (first_url ds) then [first_url ds] else [])
       \<and> (if ds \<noteq> [] \<and> usable_url (first_url ds) then True
          else snd (download_step (JObj n) report_name dl) = Inl (Exit 1)
             \<and> exit_status (Exit 1) = 1
             \<and> downloads (fst (download_step (JObj n) report_name dl)) = [])"
  using download_url_first[OF assms]
  by (auto simp: download_step_def download_report_def Let_def print_header_def
      split: download_result.splits)

text \<open>C10 at a report with two descriptors.\<close>

theorem download_uses_first_descriptor_witness:
  "downloads (fst (download_step
      (report_node ''Report'' (JStr ''COMPLETED'')
         [JObj [(''preSignedUrl'', JStr ''https://a'')], JObj [(''preSignedUrl'', JStr ''https://b'')]])
      (JStr ''Report'') (Content [1, 2, 3])))
     = [JStr ''https://a'']"
proof -
  have "downloads (fst (download_step
      (JObj [(''id'', JStr ''r''), (''name'', JStr ''Report''),
           (''result'', JObj [(''status'', JStr ''COMPLETED''), (''contents'',
              JArr [JObj [(''preSignedUrl'', JStr ''https://a'')], JObj [(''preSignedUrl'', JStr ''https://b'')]])])])
      (JStr ''Report'') (Content [1, 2, 3])))
     = [JStr ''https://a'']"
    using download_uses_first_descriptor[of
        "[(''id'', JStr ''r''), (''name'', JStr ''Report''),
           (''result'', JObj [(''status'', JStr ''COMPLETED''), (''contents'',
              JArr [JObj [(''preSignedUrl'', JStr ''https://a'')], JObj [(''preSignedUrl'', JStr ''https://b'')]])])]"
        "[(''status'', JStr ''COMPLETED''), (''contents'',
              JArr [JObj [(''preSignedUrl'', JStr ''https://a'')], JObj [(''preSignedUrl'', JStr ''https://b'')]])]"
        "[JObj [(''preSignedUrl'', JStr ''https://a'')], JObj [(''preSignedUrl'', JStr ''https://b'')]]"
        "''Report''" "Content [1, 2, 3]" JNull]
    by (simp add: usable_url_def)
  then show ?thesis by (simp add: report_node_def)
qed

lemma files_written_append: "files_written (xs @ ys) = files_written xs @ files_written ys"
  by (induction xs rule: files_written.induct) auto

lemma py_get_Inr: "py_get j k d = Inr v \<Longrightarrow> \<exists>kvs. j = JObj kvs"
  by (cases j) auto

lemma response_idD:
  assumes "response_id (Response code body text) = Some v"
  shows "code = 200 \<and> truthy v \<and> (\<exists>kvs d c. body = Some (JObj kvs) \<and> map_of kvs ''data'' = Some (JObj d)
     \<and> map_of d ''createFlexReport'' = Some (JObj c) \<and> map_of c ''id'' = Some v)"
  using assms unfolding response_id_def
  by (simp split: option.splits json.splits if_splits)

lemma handle_response_created:
  assumes "response_id (Response code body text) = Some v"
  shows "handle_response name code body text st =
     Inr (st\<lparr>flex_report_ids := flex_report_ids st @ [v],
            printed := printed st @
              [Print (''FlexReport '' @ [CHR 0x27] @ name @ [CHR 0x27] @ '' created successfully!''),
               PrintValue ''FlexReport ID: '' v, Print []],
            successful_reports := successful_reports st @ [name]\<rparr>)"
proof -
  from response_idD[OF assms] obtain kvs d c where code: "code = 200" and tv: "truthy v"
    and b: "body = Some (JObj kvs)" and 1: "map_of kvs ''data'' = Some (JObj d)"
    and 2: "map_of d ''createFlexReport'' = Some (JObj c)" and 3: "map_of c ''id'' = Some v"
    by blast
  have "d \<noteq> []" "c \<noteq> []" using 2 3 by auto
  then show ?thesis using code tv b 1 2 3
    by (simp add: handle_response_def or_raise_def)
qed

lemma handle_response_not_created:
  assumes "response_id (Response code body text) = None"
    and "handle_response name code body text st = Inr st'"
  shows "\<exists>evs. files_written evs = [] \<and> st' = st\<lparr>printed := printed st @ evs\<rparr>"
proof (cases "code = 200")
  case False
  then show ?thesis using assms(2)
    by (auto simp: handle_response_def intro!: exI[of _ "[_, _]"])
next
  case True
  note code = this
  show ?thesis
  proof (cases body)
    case None
    then show ?thesis using assms(2) code by (simp add: handle_response_def)
  next
    case (Some result)
    show ?thesis
    proof (cases "result = JNull")
      case True
      then show ?thesis using assms(2) code Some
        by (auto simp: handle_response_def failed_line_def intro!: exI[of _ "[_]"])
    next
      case False
      then obtain data where d: "py_get result ''data'' (JObj []) = Inr data"
        using assms(2) code Some
        by (cases "py_get result ''data'' (JObj [])") (auto simp: handle_response_def or_raise_def)
      then obtain kvs where r: "result = JObj kvs" using py_get_Inr by blast
      show ?thesis
      proof (cases "truthy data")
        case nd: False
        then show ?thesis using assms(2) code Some False d
          by (auto simp: handle_response_def or_raise_def failed_line_def intro!: exI[of _ "[_]"])
      next
        case td: True
        then obtain cfr where c: "py_get data ''createFlexReport'' (JObj []) = Inr cfr"
          using assms(2) code Some False d
          by (cases "py_get data ''createFlexReport'' (JObj [])")
             (auto simp: handle_response_def or_raise_def)
        then obtain dkvs where dk: "data = JObj dkvs" using py_get_Inr by blast
        show ?thesis
        proof (cases "truthy cfr")
          case nc: False
          then show ?thesis using assms(2) code Some False d td c
            by (auto simp: handle_response_def or_raise_def failed_line_def intro!: exI[of _ "[_]"])
        next
          case tc: True
          then obtain fid where i: "py_get cfr ''id'' JNull = Inr fid"
            using assms(2) code Some False d td c
            by (cases "py_get cfr ''id'' JNull") (auto simp: handle_response_def or_raise_def)
          then obtain ckvs where ck: "cfr = JObj ckvs" using py_get_Inr by blast
          have "\<not> truthy fid"
            using assms(1) code Some r d dk c ck i
            by (auto simp: response_id_def split: option.splits if_splits)
          then show ?thesis using assms(2) code Some False d td c tc i
            by (auto simp: handle_response_def or_raise_def failed_line_def intro!: exI[of _ "[_]"])
        qed
      qed
    qed
  qed
qed

lemma missing_keyD:
  assumes "missing_key (Response code body text)"
  shows "code = 200 \<and> (\<exists>kvs. body = Some (JObj kvs) \<and>
     (map_of kvs ''data'' = None
      \<or> (\<exists>d. map_of kvs ''data'' = Some (JObj d) \<and>
           (map_of d ''createFlexReport'' = None
            \<or> (\<exists>c. map_of d ''createFlexReport'' = Some (JObj c) \<and> map_of c ''id'' = None)))))"
proof (cases body)
  case None
  then show ?thesis using assms by (simp add: missing_key_def)
next
  case (Some result)
  show ?thesis
  proof (cases result)
    case (JObj kvs)
    have code: "code = 200" using assms Some JObj by (simp add: missing_key_def)
    show ?thesis
    proof (cases "map_of kvs ''data''")
      case None
      then show ?thesis using code Some JObj by simp
    next
      case data: (Some dv)
      show ?thesis
      proof (cases dv)
        case d: (JObj dk)
        show ?thesis
        proof (cases "map_of dk ''createFlexReport''")
          case None
          then show ?thesis using code Some JObj data d by simp
        next
          case cfr: (Some cv)
          show ?thesis
          proof (cases cv)
            case c: (JObj ck)
            have "map_of ck ''id'' = None"
              using assms Some JObj data d cfr c by (simp add: missing_key_def)
            then show ?thesis using code Some JObj data d cfr c by simp
          qed (use assms Some JObj data d cfr in \<open>simp_all add: missing_key_def\<close>)
        qed
      qed (use assms Some JObj data in \<open>simp_all add: missing_key_def\<close>)
    qed
  qed (use assms Some in \<open>simp_all add: missing_key_def\<close>)
qed

lemma missing_key_no_id: "missing_key resp \<Longrightarrow> response_id resp = None"
proof (cases resp)
  case (PostRaised e)
  then show ?thesis by (simp add: response_id_def)
next
  case (Response code body rtext)
  assume "missing_key resp"
  then have "missing_key (Response code body rtext)" using Response by simp
  from missing_keyD[OF this] show ?thesis
    unfolding Response response_id_def by auto
qed

lemma handle_response_missing:
  assumes "missing_key (Response code body text)"
  shows "\<exists>reason. handle_response name code body text st =
     Inr (st\<lparr>printed := printed st @ [failed_line name reason]\<rparr>)"
proof -
  from missing_keyD[OF assms] obtain kvs where code: "code = 200" and b: "body = Some (JObj kvs)"
    and m: "map_of kvs ''data'' = None
      \<or> (\<exists>d. map_of kvs ''data'' = Some (JObj d) \<and>
           (map_of d ''createFlexReport'' = None
            \<or> (\<exists>c. map_of d ''createFlexReport'' = Some (JObj c) \<and> map_of c ''id'' = None)))"
    by blast
  from m consider (a) "map_of kvs ''data'' = None"
    | (b) d where "map_of kvs ''data'' = Some (JObj d)" "map_of d ''createFlexReport'' = None"
    | (c) d c where "map_of kvs ''data'' = Some (JObj d)" "map_of d ''createFlexReport'' = Some (JObj c)"
        "map_of c ''id'' = None"
    by auto
  then show ?thesis
  proof cases
    case a
    show ?thesis
      by (use code b a in \<open>simp add: handle_response_def or_raise_def\<close>; rule exI; rule refl)
  next
    case b1: b
    show ?thesis
      by (cases "d = []";
          use code b b1 in \<open>simp add: handle_response_def or_raise_def\<close>; rule exI; rule refl)
  next
    case c1: c
    have dne: "d \<noteq> []" using c1(2) by auto
    show ?thesis
      by (cases "c = []";
          use code b c1 dne in \<open>simp add: handle_response_def or_raise_def\<close>; rule exI; rule refl)
  qed
qed

lemma prepare_entry_name:
  "prepare env tok i rd = Inr (nm, vars) \<Longrightarrow> nm = entry_name env i rd"
  by (cases "py_subscript rd ''name''")
     (auto simp: prepare_def entry_name_def or_raise_def split: sum.splits json.splits)

lemma create_one_unfold:
  assumes "prepare env tok i rd = Inr (nm, vars)"
    and "create_http env i = Response code body rtext"
  shows "create_one env tok i rd st =
     (case handle_response nm code body rtext
             (st\<lparr>printed := printed st @ [Post (CreateReport vars) (Some tok)]\<rparr>) of
        Inl x \<Rightarrow> Inl (x, st\<lparr>printed := printed st @ [Post (CreateReport vars) (Some tok)]\<rparr>)
      | Inr st2 \<Rightarrow> Inr st2)"
  using assms by (simp add: create_one_def Let_def)

lemma create_one_InrD:
  assumes "create_one env tok i rd st = Inr st'"
  shows "\<exists>nm vars code body rtext. prepare env tok i rd = Inr (nm, vars)
     \<and> create_http env i = Response code body rtext
     \<and> handle_response nm code body rtext
          (st\<lparr>printed := printed st @ [Post (CreateReport vars) (Some tok)]\<rparr>) = Inr st'"
proof (cases "prepare env tok i rd")
  case (Inl x)
  then show ?thesis using assms by (simp add: create_one_def Let_def)
next
  case (Inr p)
  obtain nm vars where p: "p = (nm, vars)" by (cases p)
  show ?thesis
  proof (cases "create_http env i")
    case (PostRaised e)
    then show ?thesis using assms Inr p by (simp add: create_one_def Let_def)
  next
    case (Response code body rtext)
    then show ?thesis using assms Inr p
      by (auto simp: create_one_def Let_def split: sum.splits)
  qed
qed

lemma create_one_Inr:
  assumes "create_one env tok i rd st = Inr st'"
  shows "(case response_id (create_http env i) of
            Some v \<Rightarrow> flex_report_ids st' = flex_report_ids st @ [v]
                    \<and> successful_reports st' = successful_reports st @ [entry_name env i rd]
          | None \<Rightarrow> flex_report_ids st' = flex_report_ids st
                  \<and> successful_reports st' = successful_reports st)
       \<and> files_written (printed st') = files_written (printed st)
       \<and> (\<exists>evs. printed st' = printed st @ evs)"
proof -
  from create_one_InrD[OF assms] obtain nm vars code body rtext
    where pr: "prepare env tok i rd = Inr (nm, vars)"
      and re: "create_http env i = Response code body rtext"
      and hr: "handle_response nm code body rtext
          (st\<lparr>printed := printed st @ [Post (CreateReport vars) (Some tok)]\<rparr>) = Inr st'"
    by blast
  have nm: "nm = entry_name env i rd" using prepare_entry_name[OF pr] .
  show ?thesis
  proof (cases "response_id (create_http env i)")
    case None
    then have "response_id (Response code body rtext) = None" using re by simp
    from handle_response_not_created[OF this hr] obtain evs where
      "files_written evs = []"
      "st' = st\<lparr>printed := printed st @ [Post (CreateReport vars) (Some tok)]\<rparr>
               \<lparr>printed := printed (st\<lparr>printed := printed st @ [Post (CreateReport vars) (Some tok)]\<rparr>) @ evs\<rparr>"
      by blast
    then show ?thesis using None by (simp add: files_written_append)
  next
    case (Some v)
    then have "response_id (Response code body rtext) = Some v" using re by simp
    from handle_response_created[OF this, of nm] hr
    show ?thesis using Some nm by (auto simp: files_written_append)
  qed
qed

lemma create_one_Inl:
  assumes "create_one env tok i rd st = Inl (x, st')"
  shows "flex_report_ids st' = flex_report_ids st \<and> successful_reports st' = successful_reports st"
proof (cases "prepare env tok i rd")
  case (Inl y)
  then show ?thesis using assms by (simp add: create_one_def Let_def)
next
  case (Inr p)
  obtain nm vars where p: "p = (nm, vars)" by (cases p)
  show ?thesis
  proof (cases "create_http env i")
    case (PostRaised e)
    then show ?thesis using assms Inr p by (auto simp: create_one_def Let_def)
  next
    case (Response code body rtext)
    then show ?thesis using assms Inr p
      by (auto simp: create_one_def Let_def split: sum.splits)
  qed
qed

lemma create_loop_Inr:
  "create_loop env tok i rds st = Inr st' \<Longrightarrow>
     flex_report_ids st' = flex_report_ids st @ map fst (created_pairs env i rds)
   \<and> successful_reports st' = successful_reports st @ map snd (created_pairs env i rds)
   \<and> files_written (printed st') = files_written (printed st)
   \<and> (\<exists>evs. printed st' = printed st @ evs)"
proof (induction rds arbitrary: i st)
  case Nil
  then show ?case by simp
next
  case (Cons rd rds)
  from Cons.prems obtain st2 where one: "create_one env tok i rd st = Inr st2"
    and rest: "create_loop env tok (Suc i) rds st2 = Inr st'"
    by (cases "create_one env tok i rd st") auto
  note a = create_one_Inr[OF one]
  note b = Cons.IH[OF rest]
  show ?case
  proof (cases "response_id (create_http env i)")
    case None
    then show ?thesis using a b by auto
  next
    case (Some v)
    then show ?thesis using a b by auto
  qed
qed

lemma create_loop_lengths:
  "length (flex_report_ids st) = length (successful_reports st) \<Longrightarrow>
   length (flex_report_ids (state_of (create_loop env tok i rds st)))
     = length (successful_reports (state_of (create_loop env tok i rds st)))"
proof (induction rds arbitrary: i st)
  case Nil
  then show ?case by simp
next
  case (Cons rd rds)
  show ?case
  proof (cases "create_one env tok i rd st")
    case (Inl crash)
    obtain x st2 where c: "crash = (x, st2)" by (cases crash)
    from create_one_Inl[OF Inl[unfolded c]] Cons.prems show ?thesis
      using Inl c by simp
  next
    case (Inr st2)
    from create_one_Inr[OF Inr] Cons.prems
    have "length (flex_report_ids st2) = length (successful_reports st2)"
      by (cases "response_id (create_http env i)") auto
    from Cons.IH[OF this] show ?thesis using Inr by simp
  qed
qed

lemma create_one_both_or_neither:
  "(flex_report_ids (state_of (create_one env tok i rd st)) = flex_report_ids st
      \<and> successful_reports (state_of (create_one env tok i rd st)) = successful_reports st)
   \<or> (\<exists>v. response_id (create_http env i) = Some v
      \<and> flex_report_ids (state_of (create_one env tok i rd st)) = flex_report_ids st @ [v]
      \<and> successful_reports (state_of (create_one env tok i rd st))
           = successful_reports st @ [entry_name env i rd])"
proof (cases "create_one env tok i rd st")
  case (Inl crash)
  obtain x st2 where c: "crash = (x, st2)" by (cases crash)
  from create_one_Inl[OF Inl[unfolded c]] show ?thesis using Inl c by simp
next
  case (Inr st2)
  from create_one_Inr[OF Inr] show ?thesis using Inr
    by (cases "response_id (create_http env i)") auto
qed

lemma zip_append_pairs:
  "length xs = length ys \<Longrightarrow> zip (xs @ map fst ps) (ys @ map snd ps) = zip xs ys @ ps"
  by (simp add: zip_map_fst_snd)

lemma request_readyD:
  "request_ready env tok i rd \<Longrightarrow> \<exists>nm vars. prepare env tok i rd = Inr (nm, vars)"
  by (cases "prepare env tok i rd") (auto simp: request_ready_def)

lemma create_one_completes:
  assumes "request_ready env tok i rd"
    and "missing_key (create_http env i) \<or> response_id (create_http env i) \<noteq> None"
  shows "\<exists>st'. create_one env tok i rd st = Inr st'
       \<and> (missing_key (create_http env i) \<longrightarrow>
            (\<exists>reason. failed_line (entry_name env i rd) reason \<in> set (printed st')))"
proof -
  from request_readyD[OF assms(1)] obtain nm vars where pr: "prepare env tok i rd = Inr (nm, vars)"
    by blast
  have nm: "nm = entry_name env i rd" using prepare_entry_name[OF pr] .
  show ?thesis
  proof (cases "missing_key (create_http env i)")
    case True
    then obtain code body rtext where re: "create_http env i = Response code body rtext"
      by (cases "create_http env i") (auto simp: missing_key_def)
    with True have "missing_key (Response code body rtext)" by simp
    from handle_response_missing[OF this, of nm
        "st\<lparr>printed := printed st @ [Post (CreateReport vars) (Some tok)]\<rparr>"]
    obtain reason where "handle_response nm code body rtext
        (st\<lparr>printed := printed st @ [Post (CreateReport vars) (Some tok)]\<rparr>)
      = Inr (st\<lparr>printed := printed st @ [Post (CreateReport vars) (Some tok)]\<rparr>
               \<lparr>printed := printed (st\<lparr>printed := printed st @ [Post (CreateReport vars) (Some tok)]\<rparr>)
                    @ [failed_line nm reason]\<rparr>)"
      by blast
    then have "create_one env tok i rd st
      = Inr (st\<lparr>printed := printed st @ [Post (CreateReport vars) (Some tok)]\<rparr>
               \<lparr>printed := printed (st\<lparr>printed := printed st @ [Post (CreateReport vars) (Some tok)]\<rparr>)
                    @ [failed_line nm reason]\<rparr>)"
      by (simp add: create_one_unfold[OF pr re])
    then show ?thesis using nm by auto
  next
    case False
    then obtain v where v: "response_id (create_http env i) = Some v" using assms(2) by auto
    then obtain code body rtext where re: "create_http env i = Response code body rtext"
      by (cases "create_http env i") (auto simp: response_id_def)
    with v have "response_id (Response code body rtext) = Some v" by simp
    from handle_response_created[OF this, of nm
        "st\<lparr>printed := printed st @ [Post (CreateReport vars) (Some tok)]\<rparr>"]
    show ?thesis using False by (simp add: create_one_unfold[OF pr re])
  qed
qed

lemma create_loop_completes:
  assumes "\<forall>j<length rds. request_ready env tok (i + j) (rds ! j)
              \<and> (missing_key (create_http env (i + j)) \<or> response_id (create_http env (i + j)) \<noteq> None)"
  shows "\<exists>st'. create_loop env tok i rds st = Inr st'
       \<and> (\<forall>j<length rds. missing_key (create_http env (i + j)) \<longrightarrow>
            (\<exists>reason. failed_line (entry_name env (i + j) (rds ! j)) reason \<in> set (printed st')))"
  using assms
proof (induction rds arbitrary: i st)
  case Nil
  then show ?case by simp
next
  case (Cons rd rds)
  from Cons.prems have h0: "request_ready env tok i rd"
    "missing_key (create_http env i) \<or> response_id (create_http env i) \<noteq> None"
    by force+
  from create_one_completes[OF h0, of st] obtain st2 where
    one: "create_one env tok i rd st = Inr st2"
    and log: "missing_key (create_http env i) \<longrightarrow>
            (\<exists>reason. failed_line (entry_name env i rd) reason \<in> set (printed st2))"
    by blast
  have rest: "\<forall>j<length rds. request_ready env tok (Suc i + j) (rds ! j)
              \<and> (missing_key (create_http env (Suc i + j)) \<or> response_id (create_http env (Suc i + j)) \<noteq> None)"
  proof (intro allI impI)
    fix j assume "j < length rds"
    then have "Suc j < length (rd # rds)" by simp
    from Cons.prems[rule_format, OF this] show "request_ready env tok (Suc i + j) (rds ! j)
              \<and> (missing_key (create_http env (Suc i + j)) \<or> response_id (create_http env (Suc i + j)) \<noteq> None)"
      by simp
  qed
  from Cons.IH[OF rest, of st2] obtain st' where
    loop: "create_loop env tok (Suc i) rds st2 = Inr st'"
    and logs: "\<forall>j<length rds. missing_key (create_http env (Suc i + j)) \<longrightarrow>
            (\<exists>reason. failed_line (entry_name env (Suc i + j) (rds ! j)) reason \<in> set (printed st'))"
    by blast
  from create_loop_Inr[OF loop] obtain evs where mono: "printed st' = printed st2 @ evs" by blast
  have "create_loop env tok i (rd # rds) st = Inr st'" using one loop by simp
  moreover have "\<forall>j<length (rd # rds). missing_key (create_http env (i + j)) \<longrightarrow>
            (\<exists>reason. failed_line (entry_name env (i + j) ((rd # rds) ! j)) reason \<in> set (printed st'))"
  proof (intro allI impI)
    fix j assume j: "j < length (rd # rds)" and m: "missing_key (create_http env (i + j))"
    show "\<exists>reason. failed_line (entry_name env (i + j) ((rd # rds) ! j)) reason \<in> set (printed st')"
    proof (cases j)
      case 0
      then show ?thesis using log m mono by auto
    next
      case (Suc j')
      then show ?thesis using logs j m by auto
    qed
  qed
  ultimately show ?case by blast
qed

lemma run_completed:
  assumes "create_loop env tok 0 rds initial_state = Inr st"
  shows "create_flexreports env tok (JArr rds) = (printed st @ write_lists st, Finished)"
    and "files_written (printed st @ write_lists st) = expected_files (created_pairs env 0 rds)"
    and "flex_report_ids st = map fst (created_pairs env 0 rds)"
    and "successful_reports st = map snd (created_pairs env 0 rds)"
proof -
  show "create_flexreports env tok (JArr rds) = (printed st @ write_lists st, Finished)"
    using assms by (simp add: create_flexreports_def py_iter_def)
  from create_loop_Inr[OF assms]
  have ids: "flex_report_ids st = map fst (created_pairs env 0 rds)"
    and names: "successful_reports st = map snd (created_pairs env 0 rds)"
    and fw: "files_written (printed st) = []"
    by (simp_all add: initial_state_def)
  show "flex_report_ids st = map fst (created_pairs env 0 rds)" by (rule ids)
  show "successful_reports st = map snd (created_pairs env 0 rds)" by (rule names)
  show "files_written (printed st @ write_lists st) = expected_files (created_pairs env 0 rds)"
    using ids names fw by (simp add: files_written_append write_lists_def expected_files_def)
qed

lemma request_ready_definition0:
  "request_ready (world0 answers) (JStr t) i (definition0 name)"
  by (simp add: request_ready_def prepare_def flex_report_variables_def or_raise_def py_int_def
      definition0_def)

lemma entry_name_definition0:
  "entry_name (world0 answers) i (definition0 name) = name @ '' X7Q2ZK''"
  by (simp add: entry_name_def definition0_def report_name_with_suffix_def format_str_def world0_def)

lemma response_id_created:
  "response_id (created_response [v]) = (if truthy v then Some v else None)"
  "response_id (created_response []) = None"
  "missing_key (created_response [])"
  by (simp_all add: response_id_def missing_key_def created_response_def)

lemma example_responses:
  "response_id (create_http (world0 answers3) 0) = Some (JStr ''id-a'')"
  "response_id (create_http (world0 answers3) (Suc 0)) = None"
  "missing_key (create_http (world0 answers3) (Suc 0))"
  "response_id (create_http (world0 answers3) (Suc (Suc 0))) = Some (JStr ''id-c'')"
  by (simp_all add: world0_def answers3_def response_id_created)

lemma example_pairs:
  "created_pairs (world0 answers3) 0 manifest3
     = [(JStr ''id-a'', ''A X7Q2ZK''), (JStr ''id-c'', ''C X7Q2ZK'')]"
  by (simp add: manifest3_def example_responses entry_name_definition0)

lemma example_ready:
  "\<forall>i<length manifest3. request_ready (world0 answers3) (JStr ''token'') i (manifest3 ! i)"
proof (intro allI impI)
  fix i assume "i < length manifest3"
  then have "i = 0 \<or> i = 1 \<or> i = 2" by (auto simp: manifest3_def)
  then show "request_ready (world0 answers3) (JStr ''token'') i (manifest3 ! i)"
    by (auto simp: manifest3_def request_ready_definition0)
qed

lemma example_answers:
  "\<forall>i<length manifest3. missing_key (create_http (world0 answers3) i)
       \<or> response_id (create_http (world0 answers3) i) \<noteq> None"
proof (intro allI impI)
  fix i assume "i < length manifest3"
  then have "i = 0 \<or> i = 1 \<or> i = 2" by (auto simp: manifest3_def)
  then show "missing_key (create_http (world0 answers3) i)
       \<or> response_id (create_http (world0 answers3) i) \<noteq> None"
    by (auto simp: world0_def answers3_def response_id_created)
qed

text \<open>
  Claim C7. In a run in which every request can be built and every response either
  carries an identifier or is a 200 response that lacks one of the nested keys \<open>data\<close>,
  \<open>createFlexReport\<close>, \<open>id\<close>, the process falls off the end of the script (exit status
  0); the two lists written hold exactly the entries whose response carries an
  identifier, so an entry whose response lacks a key is skipped, its failure line is
  printed, and the entries after it are still created. With three entries of which the
  second response omits \<open>id\<close>, each list has exactly two entries.
\<close>

theorem missing_key_entries_are_skipped:
  assumes "\<forall>i<length rds. request_ready env tok i (rds ! i)"
    and "\<forall>i<length rds. missing_key (create_http env i) \<or> response_id (create_http env i) \<noteq> None"
  shows "snd (create_flexreports env tok (JArr rds)) = Finished
       \<and> exit_status (snd (create_flexreports env tok (JArr rds))) = 0
       \<and> files_written (fst (create_flexreports env tok (JArr rds)))
           = expected_files (created_pairs env 0 rds)
       \<and> (\<forall>i<length rds. missing_key (create_http env i) \<longrightarrow>
             response_id (create_http env i) = None
           \<and> (\<exists>reason. failed_line (entry_name env i (rds ! i)) reason
                  \<in> set (fst (create_flexreports env tok (JArr rds)))))
       \<and> (length rds = 3 \<and> response_id (create_http env 0) \<noteq> None
            \<and> missing_key (create_http env 1) \<and> response_id (create_http env 2) \<noteq> None \<longrightarrow>
           (\<exists>ids names. files_written (fst (create_flexreports env tok (JArr rds)))
                = [(''previous-run.list'', ids), (''successful_reports.list'', names)]
              \<and> length ids = 2 \<and> length names = 2))"
proof -
  have h: "\<forall>j<length rds. request_ready env tok (0 + j) (rds ! j)
              \<and> (missing_key (create_http env (0 + j)) \<or> response_id (create_http env (0 + j)) \<noteq> None)"
    using assms by simp
  from create_loop_completes[OF h, of initial_state] obtain st where
    loop: "create_loop env tok 0 rds initial_state = Inr st"
    and logs: "\<forall>j<length rds. missing_key (create_http env j) \<longrightarrow>
            (\<exists>reason. failed_line (entry_name env j (rds ! j)) reason \<in> set (printed st))"
    by auto
  note run = run_completed[OF loop]
  have 1: "snd (create_flexreports env tok (JArr rds)) = Finished" by (simp add: run(1))
  have 2: "files_written (fst (create_flexreports env tok (JArr rds)))
           = expected_files (created_pairs env 0 rds)"
    by (simp add: run(1) run(2))
  have 3: "\<forall>i<length rds. missing_key (create_http env i) \<longrightarrow>
             response_id (create_http env i) = None
           \<and> (\<exists>reason. failed_line (entry_name env i (rds ! i)) reason
                  \<in> set (fst (create_flexreports env tok (JArr rds))))"
    using logs by (auto simp: run(1) missing_key_no_id)
  have 4: "length rds = 3 \<and> response_id (create_http env 0) \<noteq> None
            \<and> missing_key (create_http env 1) \<and> response_id (create_http env 2) \<noteq> None \<longrightarrow>
           (\<exists>ids names. files_written (fst (create_flexreports env tok (JArr rds)))
                = [(''previous-run.list'', ids), (''successful_reports.list'', names)]
              \<and> length ids = 2 \<and> length names = 2)"
  proof
    assume a: "length rds = 3 \<and> response_id (create_http env 0) \<noteq> None
            \<and> missing_key (create_http env 1) \<and> response_id (create_http env 2) \<noteq> None"
    then obtain x y z where rds: "rds = [x, y, z]"
      by (cases rds; cases "tl rds"; cases "tl (tl rds)") auto
    from a obtain v0 v2 where v: "response_id (create_http env 0) = Some v0"
      "response_id (create_http env (Suc (Suc 0))) = Some v2"
      by (auto simp: numeral_2_eq_2)
    from a have n: "response_id (create_http env (Suc 0)) = None"
      using missing_key_no_id by auto
    have "created_pairs env 0 rds = [(v0, entry_name env 0 x), (v2, entry_name env (Suc (Suc 0)) z)]"
      by (simp add: rds v n)
    then show "\<exists>ids names. files_written (fst (create_flexreports env tok (JArr rds)))
                = [(''previous-run.list'', ids), (''successful_reports.list'', names)]
              \<and> length ids = 2 \<and> length names = 2"
      by (simp add: 2 expected_files_def)
  qed
  from 1 2 3 4 show ?thesis by simp
qed

text \<open>C7 at a manifest of three entries whose second response omits \<open>id\<close>.\<close>

theorem missing_key_entries_are_skipped_witness:
  "snd (create_flexreports (world0 answers3) (JStr ''token'') (JArr manifest3)) = Finished
   \<and> files_written (fst (create_flexreports (world0 answers3) (JStr ''token'') (JArr manifest3)))
       = [(''previous-run.list'', [JStr ''id-a'', JStr ''id-c'']),
          (''successful_reports.list'', [JStr ''A X7Q2ZK'', JStr ''C X7Q2ZK''])]"
  using missing_key_entries_are_skipped[OF example_ready example_answers]
  by (simp add: example_pairs expected_files_def)

text \<open>
  Claim C8, as the code has it. When the loop runs to its end, the identifiers are
  written to \<open>previous-run.list\<close> in every case, and the names are written to
  \<open>successful_reports.list\<close> only when at least one entry was created; what is written
  is exactly the created entries, in order.
\<close>

theorem output_lists_written:
  assumes "create_loop env tok 0 rds initial_state = Inr st"
  shows "snd (create_flexreports env tok (JArr rds)) = Finished
       \<and> files_written (fst (create_flexreports env tok (JArr rds)))
           = (''previous-run.list'', flex_report_ids st)
             # (if successful_reports st = [] then []
                else [(''successful_reports.list'', map JStr (successful_reports st))])
       \<and> flex_report_ids st = map fst (created_pairs env 0 rds)
       \<and> successful_reports st = map snd (created_pairs env 0 rds)"
proof -
  note run = run_completed[OF assms]
  have "files_written (fst (create_flexreports env tok (JArr rds)))
           = (''previous-run.list'', flex_report_ids st)
             # (if successful_reports st = [] then []
                else [(''successful_reports.list'', map JStr (successful_reports st))])"
    using run(2) by (simp add: run(1) run(3) run(4) expected_files_def)
  then show ?thesis using run by simp
qed

text \<open>C8 at a manifest of three entries of which two are created.\<close>

theorem output_lists_written_witness:
  "files_written (fst (create_flexreports (world0 answers3) (JStr ''token'') (JArr manifest3)))
       = [(''previous-run.list'', [JStr ''id-a'', JStr ''id-c'']),
          (''successful_reports.list'', [JStr ''A X7Q2ZK'', JStr ''C X7Q2ZK''])]"
proof -
  have h: "\<forall>j<length manifest3. request_ready (world0 answers3) (JStr ''token'') (0 + j) (manifest3 ! j)
      \<and> (missing_key (create_http (world0 answers3) (0 + j))
          \<or> response_id (create_http (world0 answers3) (0 + j)) \<noteq> None)"
    using example_ready example_answers by simp
  from create_loop_completes[OF h, of initial_state] obtain st where
    loop: "create_loop (world0 answers3) (JStr ''token'') 0 manifest3 initial_state = Inr st"
    by blast
  from output_lists_written[OF loop] show ?thesis
    by (simp add: example_pairs)
qed

text \<open>
  C8 as stated fails on a run in which no entry is created (the only request is answered
  with status 500): the run ends normally and \<open>previous-run.list\<close> is written, empty, but
  \<open>successful_reports.list\<close> is not written.
\<close>

theorem no_success_no_names_file_counterexample:
  "snd (create_flexreports (world0 (\<lambda>i. Response 500 None ''Internal Server Error''))
          (JStr ''token'') (JArr [definition0 ''A''])) = Finished
   \<and> files_written (fst (create_flexreports (world0 (\<lambda>i. Response 500 None ''Internal Server Error''))
          (JStr ''token'') (JArr [definition0 ''A''])))
       = [(''previous-run.list'', [])]"
  by (simp add: create_flexreports_def py_iter_def create_one_def prepare_def
      flex_report_variables_def or_raise_def py_int_def definition0_def world0_def
      handle_response_def initial_state_def write_lists_def files_written_append
      report_name_with_suffix_def format_str_def)

text \<open>
  Claim C9. From a state in which the two lists have the same length, the loop reaches
  only states in which they have the same length, whether it ends or is cut short by an
  exception; when it ends, the lists, paired position by position, are the identifier
  and the suffixed name of the same iteration, for every iteration that created a
  report; and one iteration appends to both lists or to neither.
\<close>

theorem ids_and_names_stay_paired:
  assumes "length (flex_report_ids st) = length (successful_reports st)"
  shows "length (flex_report_ids (state_of (create_loop env tok i rds st)))
           = length (successful_reports (state_of (create_loop env tok i rds st)))
       \<and> (\<forall>st'. create_loop env tok i rds st = Inr st' \<longrightarrow>
             zip (flex_report_ids st') (successful_reports st')
               = zip (flex_report_ids st) (successful_reports st) @ created_pairs env i rds)
       \<and> ((flex_report_ids (state_of (create_one env tok i rd st)) = flex_report_ids st
             \<and> successful_reports (state_of (create_one env tok i rd st)) = successful_reports st)
          \<or> (\<exists>v. response_id (create_http env i) = Some v
             \<and> flex_report_ids (state_of (create_one env tok i rd st)) = flex_report_ids st @ [v]
             \<and> successful_reports (state_of (create_one env tok i rd st))
                  = successful_reports st @ [entry_name env i rd]))"
proof -
  have 1: "length (flex_report_ids (state_of (create_loop env tok i rds st)))
           = length (successful_reports (state_of (create_loop env tok i rds st)))"
    using assms by (rule create_loop_lengths)
  have 2: "\<forall>st'. create_loop env tok i rds st = Inr st' \<longrightarrow>
             zip (flex_report_ids st') (successful_reports st')
               = zip (flex_report_ids st) (successful_reports st) @ created_pairs env i rds"
  proof (intro allI impI)
    fix st' assume "create_loop env tok i rds st = Inr st'"
    from create_loop_Inr[OF this] show "zip (flex_report_ids st') (successful_reports st')
               = zip (flex_report_ids st) (successful_reports st) @ created_pairs env i rds"
      using assms by (simp add: zip_map_fst_snd)
  qed
  from 1 2 create_one_both_or_neither[of env tok i rd st] show ?thesis by blast
qed

text \<open>C9 at a manifest of three entries of which two are created.\<close>

theorem ids_and_names_stay_paired_witness:
  "length (flex_report_ids (state_of
       (create_loop (world0 answers3) (JStr ''token'') 0 manifest3 initial_state))) = 2
   \<and> length (successful_reports (state_of
       (create_loop (world0 answers3) (JStr ''token'') 0 manifest3 initial_state))) = 2
   \<and> zip (flex_report_ids (state_of
            (create_loop (world0 answers3) (JStr ''token'') 0 manifest3 initial_state)))
          (successful_reports (state_of
            (create_loop (world0 answers3) (JStr ''token'') 0 manifest3 initial_state)))
       = [(JStr ''id-a'', ''A X7Q2ZK''), (JStr ''id-c'', ''C X7Q2ZK'')]"
proof -
  have h: "\<forall>j<length manifest3. request_ready (world0 answers3) (JStr ''token'') (0 + j) (manifest3 ! j)
      \<and> (missing_key (create_http (world0 answers3) (0 + j))
          \<or> response_id (create_http (world0 answers3) (0 + j)) \<noteq> None)"
    using example_ready example_answers by simp
  from create_loop_completes[OF h, of initial_state] obtain st where
    loop: "create_loop (world0 answers3) (JStr ''token'') 0 manifest3 initial_state = Inr st"
    by blast
  have i: "length (flex_report_ids initial_state) = length (successful_reports initial_state)"
    by (simp add: initial_state_def)
  from ids_and_names_stay_paired[OF i, of "world0 answers3" "JStr ''token''" 0 manifest3 JNull]
  have l: "length (flex_report_ids st) = length (successful_reports st)"
    and z: "zip (flex_report_ids st) (successful_reports st)
       = [(JStr ''id-a'', ''A X7Q2ZK''), (JStr ''id-c'', ''C X7Q2ZK'')]"
    using loop by (simp_all add: example_pairs initial_state_def)
  from z have "length (zip (flex_report_ids st) (successful_reports st)) = 2" by simp
  then have "length (flex_report_ids st) = 2" using l by simp
  then show ?thesis using l z loop by simp
qed

end
